theory Spec2Isabelle
  imports Complex_Main "HOL-Library.Log_Nat"
begin

section \<open>Data model\<close>

text \<open>
  The documents of \<^verbatim>\<open>backend/models/Session.js\<close>, of the Product model (stored in
  \<^verbatim>\<open>backend/models/UserSession.js\<close>) and of the Table model. JavaScript numbers that
  hold money, rates and stock are finite rationals here. The payment bookkeeping rounds its
  sums and differences to binary64, as defined below, because a rounded sum decides the
  payment status there; the arithmetic on costs and stock is exact, as binary64 is on
  whole-number amounts and quantities below \<open>2 ^ 53\<close>. Timestamps are integer milliseconds
  (\<^verbatim>\<open>Date.getTime()\<close>); object ids are natural numbers. A date that may be
  \<^verbatim>\<open>null\<close> is an option. A rate is a Number path without default: it is undefined
  until it is assigned, and may hold \<^verbatim>\<open>null\<close>.
\<close>

datatype optional_number = Undefined | Null | Number rat

datatype session_status = Active | Paused | Completed | Cancelled

datatype payment_status = Pending | Paid | Credit

datatype pricing_method = PerMinute | FrameKitti

datatype table_status = TableActive | Maintenance | Inactive

datatype error =
    NotFound
  | Forbidden
  | InvalidState
  | ValidationFailed
  | InsufficientStock
  | RequiresPaymentConfirmation "rat option"
  | ServerFault

record sessionItem =
  item_id :: nat
  item_product :: nat
  item_productName :: string
  item_quantity :: int
  item_costPrice :: rat
  item_sellingPrice :: rat
  item_totalCost :: rat
  item_totalRevenue :: rat
  item_profit :: rat
  item_addedAt :: int

record payment =
  pay_method :: string
  pay_methodLabel :: string
  pay_amount :: rat
  pay_transactionId :: string
  pay_notes :: string
  pay_paidAt :: int

record session =
  sess_id :: nat
  sess_table :: nat
  sess_owner :: nat
  status :: session_status
  startTime :: int
  endTime :: "int option"
  pausedAt :: "int option"
  totalPausedTime :: int
  frames :: int
  kittis :: int
  items :: "sessionItem list"
  totalItems :: int
  totalItemsCost :: rat
  totalItemsRevenue :: rat
  totalItemsProfit :: rat
  pricingMethod :: pricing_method
  minuteRate :: optional_number
  hourlyRate :: optional_number
  frameRate :: optional_number
  kittiRate :: optional_number
  gameCost :: rat
  totalCost :: rat
  paymentStatus :: payment_status
  paymentMethod :: "string option"
  paymentMethodLabel :: "string option"
  payments :: "payment list"
  totalPaidAmount :: rat
  remainingAmount :: rat
  paymentNotes :: string
  paymentCompletedAt :: "int option"
  sess_notes :: string
  lastModifiedAt :: int

record product =
  prod_id :: nat
  prod_owner :: nat
  prod_name :: string
  prod_costPrice :: rat
  prod_sellingPrice :: rat
  currentStock :: rat

record table =
  tbl_id :: nat
  tbl_owner :: nat
  tbl_status :: table_status
  tbl_pricingMethod :: pricing_method
  tbl_hourlyRate :: optional_number
  tbl_frameRate :: optional_number
  tbl_kittiRate :: optional_number
  isOccupied :: bool
  currentBooking :: "nat option"

section \<open>Session methods (\<^verbatim>\<open>backend/models/Session.js\<close>)\<close>

text \<open>
  \<^verbatim>\<open>getDurationInMinutes\<close>. The argument \<open>clock\<close> is the value of
  \<^verbatim>\<open>Date.now()\<close>; \<^verbatim>\<open>endTime?.getTime() || Date.now()\<close> falls back to the clock
  when the end time is absent or is the epoch (the number 0 is falsy);
  \<^verbatim>\<open>totalPausedTime || 0\<close> is the stored number. \<^verbatim>\<open>Math.floor\<close> of a quotient of
  integers is \<open>div\<close> on \<open>int\<close>.
\<close>

definition getDurationInMinutes :: "int \<Rightarrow> session \<Rightarrow> int" where
  "getDurationInMinutes clock s =
     (let now = (if status s = Active then clock
                 else (case endTime s of
                         None \<Rightarrow> clock
                       | Some e \<Rightarrow> if e = 0 then clock else e));
          effectiveStartTime = startTime s;
          totalPaused = totalPausedTime s;
          currentPauseDuration =
            (case pausedAt s of
               None \<Rightarrow> 0
             | Some p \<Rightarrow> if status s = Paused then clock - p else 0)
      in (now - effectiveStartTime - totalPaused - currentPauseDuration) div (1000 * 60))"

text \<open>
  The number that arithmetic reads from a rate: \<^verbatim>\<open>null\<close> counts as 0, and an undefined
  rate gives \<^verbatim>\<open>NaN\<close>, which is \<open>None\<close> here.
\<close>

definition numberOf :: "optional_number \<Rightarrow> rat option" where
  "numberOf v = (case v of Undefined \<Rightarrow> None | Null \<Rightarrow> Some 0 | Number x \<Rightarrow> Some x)"

text \<open>
  \<^verbatim>\<open>calculateGameCost\<close>. The test \<^verbatim>\<open>this.minuteRate !== undefined\<close> lets a
  \<^verbatim>\<open>null\<close> minute rate through.
\<close>

definition calculateGameCost :: "int \<Rightarrow> session \<Rightarrow> rat option" where
  "calculateGameCost clock s =
     (case pricingMethod s of
        PerMinute \<Rightarrow>
          (let minutes = getDurationInMinutes clock s
           in if minuteRate s \<noteq> Undefined
              then (case numberOf (minuteRate s) of
                      Some r \<Rightarrow> Some (r * of_int minutes)
                    | None \<Rightarrow> None)
              else (case numberOf (hourlyRate s) of
                      Some h \<Rightarrow> Some ((h / 60) * of_int minutes)
                    | None \<Rightarrow> None))
      | FrameKitti \<Rightarrow>
          (case (numberOf (frameRate s), numberOf (kittiRate s)) of
             (Some f, Some k) \<Rightarrow> Some ((of_int (frames s) * f) + (of_int (kittis s) * k))
           | _ \<Rightarrow> None))"

definition calculateCurrentCost :: "int \<Rightarrow> session \<Rightarrow> rat option" where
  "calculateCurrentCost clock s =
     (case calculateGameCost clock s of
        None \<Rightarrow> None
      | Some gameCost' \<Rightarrow> Some (gameCost' + totalItemsRevenue s))"

definition calculateItemsTotals :: "session \<Rightarrow> session" where
  "calculateItemsTotals s =
     (let revenue = sum_list (map item_totalRevenue (items s));
          cost = sum_list (map item_totalCost (items s))
      in s\<lparr>totalItems := sum_list (map item_quantity (items s)),
            totalItemsCost := cost,
            totalItemsRevenue := revenue,
            totalItemsProfit := revenue - cost\<rparr>)"

text \<open>
  Binary64 arithmetic. The sum or difference of two numbers is the exact result rounded to
  the nearest double, ties to the even significand: 53 significant bits, down to the
  subnormal spacing \<open>2 ^ -1074\<close>. Numbers stay finite: a result beyond the largest double
  is outside the model. \<open>floorLog2 a\<close> is the exponent of the power of two at or below
  \<open>a > 0\<close>.
\<close>

definition pow2 :: "int \<Rightarrow> rat" where
  "pow2 k = (if 0 \<le> k then 2 ^ nat k else 1 / 2 ^ nat (- k))"

definition floorLog2 :: "rat \<Rightarrow> int" where
  "floorLog2 a = (if 1 \<le> a then bitlen \<lfloor>a\<rfloor> - 1 else - bitlen (\<lceil>1 / a\<rceil> - 1))"

definition round_double :: "rat \<Rightarrow> rat" where
  "round_double x =
     (if x = 0 then 0
      else (let a = \<bar>x\<bar>;
                e = max (floorLog2 a - 52) (- 1074);
                m = a / pow2 e;
                n = \<lfloor>m\<rfloor>;
                r = m - of_int n;
                n' = (if r < 1 / 2 then n
                      else if 1 / 2 < r then n + 1
                      else if even n then n else n + 1)
            in sgn x * of_int n' * pow2 e))"

definition js_add :: "rat \<Rightarrow> rat \<Rightarrow> rat" where
  "js_add x y = round_double (x + y)"

definition js_sub :: "rat \<Rightarrow> rat \<Rightarrow> rat" where
  "js_sub x y = round_double (x - y)"

text \<open>The number that a decimal literal denotes.\<close>

definition double :: "rat \<Rightarrow> rat" where
  "double x = round_double x"

text \<open>
  \<^verbatim>\<open>updatePaymentAmounts\<close>. The paid amount is the left-to-right binary64 sum of the
  payments, from 0, and the remaining amount a binary64 difference: here the comparison of
  a rounded sum with the total cost decides the payment status.
\<close>

definition updatePaymentAmounts :: "int \<Rightarrow> session \<Rightarrow> session" where
  "updatePaymentAmounts clock s =
     (let paid = foldl js_add 0 (map pay_amount (payments s));
          s1 = s\<lparr>totalPaidAmount := paid,
                  remainingAmount := max 0 (js_sub (totalCost s) paid)\<rparr>
      in if paid = 0 then s1\<lparr>paymentStatus := Pending\<rparr>
         else if paid \<ge> totalCost s then
           s1\<lparr>paymentStatus := Paid,
               paymentCompletedAt :=
                 (case paymentCompletedAt s of None \<Rightarrow> Some clock | Some t \<Rightarrow> Some t)\<rparr>
         else s1\<lparr>paymentStatus := Credit\<rparr>)"

text \<open>
  \<^verbatim>\<open>updateTotalCost\<close> ends with \<^verbatim>\<open>this.save()\<close>. A \<^verbatim>\<open>NaN\<close> game cost cannot be
  stored in a Number path, so the save rejects and the caller's \<^verbatim>\<open>catch\<close> answers with
  a server fault. The schema's minimum 0 of the game cost and of the total cost is met when
  the rates are not negative and the clock is not before the start, which is taken for
  granted: every other save of this method succeeds.
\<close>

definition updateTotalCost :: "int \<Rightarrow> session \<Rightarrow> error + session" where
  "updateTotalCost clock s =
     (let s1 = calculateItemsTotals s
      in (case calculateGameCost clock s1 of
            None \<Rightarrow> Inl ServerFault
          | Some g \<Rightarrow>
              Inr (updatePaymentAmounts clock
                     (s1\<lparr>gameCost := g, totalCost := g + totalItemsRevenue s1\<rparr>))))"

definition validMethods :: "string \<Rightarrow> string option" where
  "validMethods m =
     (if m = ''esewa'' then Some ''eSewa''
      else if m = ''online_banking'' then Some ''Online Banking''
      else if m = ''cash'' then Some ''Cash''
      else None)"

record paymentData =
  pd_method :: string
  pd_amount :: rat
  pd_transactionId :: string
  pd_notes :: string

text \<open>
  \<^verbatim>\<open>recordPayment\<close> throws on an unsupported method. Its final \<^verbatim>\<open>this.save()\<close>
  validates the pushed payment against the payment schema, whose amount has the minimum 0:
  a negative amount makes the save reject, and nothing of the call is stored.
\<close>

definition recordPayment :: "int \<Rightarrow> paymentData \<Rightarrow> session \<Rightarrow> error + session" where
  "recordPayment clock pd s =
     (case validMethods (pd_method pd) of
        None \<Rightarrow> Inl ValidationFailed
      | Some label \<Rightarrow>
          (let s1 = s\<lparr>payments := payments s @
                        [\<lparr>pay_method = pd_method pd, pay_methodLabel = label,
                          pay_amount = pd_amount pd,
                          pay_transactionId = pd_transactionId pd,
                          pay_notes = pd_notes pd, pay_paidAt = clock\<rparr>]\<rparr>;
               s2 = (if (case paymentMethod s1 of None \<Rightarrow> True | Some m \<Rightarrow> m = [])
                        \<or> length (payments s1) = 1
                     then s1\<lparr>paymentMethod := Some (pd_method pd),
                             paymentMethodLabel := Some label\<rparr>
                     else s1)
           in if pd_amount pd < 0 then Inl ValidationFailed
              else Inr (updatePaymentAmounts clock s2)))"

definition markAsPaid :: "int \<Rightarrow> string \<Rightarrow> string \<Rightarrow> string \<Rightarrow> session \<Rightarrow> error + session" where
  "markAsPaid clock method transactionId notes' s =
     recordPayment clock
       \<lparr>pd_method = method, pd_amount = js_sub (totalCost s) (totalPaidAmount s),
        pd_transactionId = transactionId, pd_notes = notes'\<rparr> s"

definition markAsCredit :: "int \<Rightarrow> string \<Rightarrow> session \<Rightarrow> session" where
  "markAsCredit clock notes' s =
     s\<lparr>paymentStatus := Credit,
       paymentNotes := (if notes' = [] then ''Payment credited - to be collected later''
                        else notes'),
       lastModifiedAt := clock\<rparr>"

text \<open>A sequence of \<^verbatim>\<open>recordPayment\<close> calls; a call that throws stops the sequence.\<close>

fun recordPayments :: "int \<Rightarrow> paymentData list \<Rightarrow> session \<Rightarrow> error + session" where
  "recordPayments clock [] s = Inr s"
| "recordPayments clock (pd # pds) s =
     (case recordPayment clock pd s of
        Inl e \<Rightarrow> Inl e
      | Inr s' \<Rightarrow> recordPayments clock pds s')"

text \<open>
  \<^verbatim>\<open>addItem\<close> and \<^verbatim>\<open>removeItem\<close>. The id of the pushed sub-document is generated by
  the store; it is the argument \<open>newId\<close>. Neither method assigns \<^verbatim>\<open>gameCost\<close>.
\<close>

record itemData =
  id_product :: nat
  id_productName :: string
  id_quantity :: int
  id_costPrice :: rat
  id_sellingPrice :: rat

definition addItem :: "int \<Rightarrow> nat \<Rightarrow> itemData \<Rightarrow> session \<Rightarrow> error + session" where
  "addItem clock newId itd s =
     (let totalCost' = id_costPrice itd * of_int (id_quantity itd);
          totalRevenue = id_sellingPrice itd * of_int (id_quantity itd);
          profit = totalRevenue - totalCost';
          s1 = calculateItemsTotals
                 (s\<lparr>items := items s @
                      [\<lparr>item_id = newId, item_product = id_product itd,
                        item_productName = id_productName itd,
                        item_quantity = id_quantity itd,
                        item_costPrice = id_costPrice itd,
                        item_sellingPrice = id_sellingPrice itd,
                        item_totalCost = totalCost', item_totalRevenue = totalRevenue,
                        item_profit = profit, item_addedAt = clock\<rparr>]\<rparr>)
      in (case calculateGameCost clock s1 of
            None \<Rightarrow> Inl ServerFault
          | Some g \<Rightarrow>
              Inr (updatePaymentAmounts clock (s1\<lparr>totalCost := g + totalItemsRevenue s1\<rparr>))))"

definition removeItem :: "int \<Rightarrow> nat \<Rightarrow> session \<Rightarrow> error + session" where
  "removeItem clock itemId s =
     (let s1 = calculateItemsTotals
                 (s\<lparr>items := filter (\<lambda>item. item_id item \<noteq> itemId) (items s)\<rparr>)
      in (case calculateGameCost clock s1 of
            None \<Rightarrow> Inl ServerFault
          | Some g \<Rightarrow>
              Inr (updatePaymentAmounts clock (s1\<lparr>totalCost := g + totalItemsRevenue s1\<rparr>))))"

section \<open>Product method \<^verbatim>\<open>updateStock\<close>\<close>

text \<open>
  The method on a numeric quantity, which is what the session handlers pass (an item's
  quantity).
\<close>

definition updateStock :: "rat \<Rightarrow> string \<Rightarrow> product \<Rightarrow> product" where
  "updateStock quantity operation p =
     (if operation = ''add'' then p\<lparr>currentStock := currentStock p + quantity\<rparr>
      else if operation = ''subtract'' then
        p\<lparr>currentStock := max 0 (currentStock p - quantity)\<rparr>
      else if operation = ''set'' then p\<lparr>currentStock := max 0 quantity\<rparr>
      else p)"

section \<open>The document store\<close>

text \<open>
  Three collections, each a list of documents in insertion order, and the next fresh object
  id. \<^verbatim>\<open>findById\<close> returns the document with the id; \<^verbatim>\<open>save\<close> replaces it.
\<close>

record db =
  tables :: "table list"
  sessions :: "session list"
  products :: "product list"
  nextId :: nat

definition findTable :: "nat \<Rightarrow> db \<Rightarrow> table option" where
  "findTable i d = find (\<lambda>t. tbl_id t = i) (tables d)"

definition findSession :: "nat \<Rightarrow> db \<Rightarrow> session option" where
  "findSession i d = find (\<lambda>s. sess_id s = i) (sessions d)"

definition findProduct :: "nat \<Rightarrow> db \<Rightarrow> product option" where
  "findProduct i d = find (\<lambda>p. prod_id p = i) (products d)"

definition saveTable :: "table \<Rightarrow> db \<Rightarrow> db" where
  "saveTable t d = d\<lparr>tables := map (\<lambda>x. if tbl_id x = tbl_id t then t else x) (tables d)\<rparr>"

definition saveSession :: "session \<Rightarrow> db \<Rightarrow> db" where
  "saveSession s d =
     d\<lparr>sessions := map (\<lambda>x. if sess_id x = sess_id s then s else x) (sessions d)\<rparr>"

definition saveProduct :: "product \<Rightarrow> db \<Rightarrow> db" where
  "saveProduct p d =
     d\<lparr>products := map (\<lambda>x. if prod_id x = prod_id p then p else x) (products d)\<rparr>"

text \<open>\<^verbatim>\<open>Session.getActiveSession\<close>: the first open session of the table, if any.\<close>

definition getActiveSession :: "nat \<Rightarrow> db \<Rightarrow> session option" where
  "getActiveSession tableId d =
     find (\<lambda>s. sess_table s = tableId \<and> (status s = Active \<or> status s = Paused))
       (sessions d)"

text \<open>
  Freeing the table a session refers to, after \<^verbatim>\<open>populate('table')\<close>: nothing happens
  when the table document no longer exists.
\<close>

definition freeTable :: "nat \<Rightarrow> db \<Rightarrow> db" where
  "freeTable tableId d =
     (case findTable tableId d of
        None \<Rightarrow> d
      | Some t \<Rightarrow> saveTable (t\<lparr>isOccupied := False, currentBooking := None\<rparr>) d)"

section \<open>The session controller (\<^verbatim>\<open>backend/server.js\<close>)\<close>

text \<open>
  Every handler takes the authenticated user, the request's parameters, the clock and the
  store, and returns the reply (an error, or the document sent back) with the store as the
  handler leaves it. One handler runs at a time. An exception of a model method is caught
  by the handler's \<^verbatim>\<open>catch\<close>, which answers with a server fault; what was saved before
  stays saved.
\<close>

text \<open>
  \<^verbatim>\<open>new Session(sessionData)\<close> in \<^verbatim>\<open>startSession\<close>: the fields the handler sets, and
  the schema defaults for the others. The rate fields that the handler does not assign stay
  undefined. The customer fields and the venue reference carry no behaviour and are left out
  (the venue is taken to resolve).
\<close>

definition newSession :: "int \<Rightarrow> nat \<Rightarrow> nat \<Rightarrow> table \<Rightarrow> session" where
  "newSession clock newId user t =
     \<lparr>sess_id = newId, sess_table = tbl_id t, sess_owner = user, status = Active,
      startTime = clock, endTime = None, pausedAt = None, totalPausedTime = 0,
      frames = 0, kittis = 0, items = [], totalItems = 0, totalItemsCost = 0,
      totalItemsRevenue = 0, totalItemsProfit = 0,
      pricingMethod = tbl_pricingMethod t,
      minuteRate = (if tbl_pricingMethod t = PerMinute then tbl_hourlyRate t else Undefined),
      hourlyRate = Undefined,
      frameRate = (if tbl_pricingMethod t = FrameKitti then tbl_frameRate t else Undefined),
      kittiRate = (if tbl_pricingMethod t = FrameKitti then tbl_kittiRate t else Undefined),
      gameCost = 0, totalCost = 0, paymentStatus = Pending, paymentMethod = None,
      paymentMethodLabel = None, payments = [], totalPaidAmount = 0, remainingAmount = 0,
      paymentNotes = [], paymentCompletedAt = None, sess_notes = [],
      lastModifiedAt = clock\<rparr>"

definition startSession :: "nat \<Rightarrow> nat \<Rightarrow> int \<Rightarrow> db \<Rightarrow> (error + session) \<times> db" where
  "startSession user tableId clock d =
     (case findTable tableId d of
        None \<Rightarrow> (Inl NotFound, d)
      | Some t \<Rightarrow>
          if tbl_owner t \<noteq> user then (Inl Forbidden, d)
          else if tbl_status t \<noteq> TableActive then (Inl InvalidState, d)
          else if isOccupied t then (Inl InvalidState, d)
          else (case getActiveSession tableId d of
                  Some existingSession \<Rightarrow> (Inl InvalidState, d)
                | None \<Rightarrow>
                    (let s = newSession clock (nextId d) user t;
                         d1 = d\<lparr>sessions := sessions d @ [s], nextId := Suc (nextId d)\<rparr>;
                         d2 = saveTable (t\<lparr>isOccupied := True,
                                            currentBooking := Some (sess_id s)\<rparr>) d1
                     in (Inr s, d2))))"

text \<open>
  \<^verbatim>\<open>addItemToSession\<close>: the quantity is an integer (the route's schema), so
  \<^verbatim>\<open>parseInt(quantity)\<close> is the quantity; the id of the new item is the store's next id.
\<close>

definition addItemToSession ::
  "nat \<Rightarrow> nat \<Rightarrow> nat \<Rightarrow> int \<Rightarrow> int \<Rightarrow> db \<Rightarrow> (error + session) \<times> db" where
  "addItemToSession user sessionId productId quantity clock d =
     (if quantity < 1 then (Inl ValidationFailed, d)
      else (case findSession sessionId d of
              None \<Rightarrow> (Inl NotFound, d)
            | Some s \<Rightarrow>
                if sess_owner s \<noteq> user then (Inl Forbidden, d)
                else if \<not> (status s = Active \<or> status s = Paused) then (Inl InvalidState, d)
                else (case findProduct productId d of
                        None \<Rightarrow> (Inl NotFound, d)
                      | Some p \<Rightarrow>
                          if prod_owner p \<noteq> user then (Inl Forbidden, d)
                          else if currentStock p < of_int quantity
                          then (Inl InsufficientStock, d)
                          else (case addItem clock (nextId d)
                                       \<lparr>id_product = prod_id p, id_productName = prod_name p,
                                        id_quantity = quantity,
                                        id_costPrice = prod_costPrice p,
                                        id_sellingPrice = prod_sellingPrice p\<rparr> s of
                                  Inl e \<Rightarrow> (Inl ServerFault, d)
                                | Inr s' \<Rightarrow>
                                    (Inr s',
                                     saveProduct (updateStock (of_int quantity) ''subtract'' p)
                                       (saveSession s' (d\<lparr>nextId := Suc (nextId d)\<rparr>)))))))"

definition removeItemFromSession ::
  "nat \<Rightarrow> nat \<Rightarrow> nat \<Rightarrow> int \<Rightarrow> db \<Rightarrow> (error + session) \<times> db" where
  "removeItemFromSession user sessionId itemId clock d =
     (case findSession sessionId d of
        None \<Rightarrow> (Inl NotFound, d)
      | Some s \<Rightarrow>
          if sess_owner s \<noteq> user then (Inl Forbidden, d)
          else if \<not> (status s = Active \<or> status s = Paused) then (Inl InvalidState, d)
          else (case find (\<lambda>item. item_id item = itemId) (items s) of
                  None \<Rightarrow> (Inl NotFound, d)
                | Some item \<Rightarrow>
                    (let d1 = (case findProduct (item_product item) d of
                                 None \<Rightarrow> d
                               | Some p \<Rightarrow>
                                   saveProduct
                                     (updateStock (of_int (item_quantity item)) ''add'' p) d)
                     in (case removeItem clock itemId s of
                           Inl e \<Rightarrow> (Inl ServerFault, d1)
                         | Inr s' \<Rightarrow> (Inr s', saveSession s' d1)))))"

definition pauseSession :: "nat \<Rightarrow> nat \<Rightarrow> int \<Rightarrow> db \<Rightarrow> (error + session) \<times> db" where
  "pauseSession user sessionId clock d =
     (case findSession sessionId d of
        None \<Rightarrow> (Inl NotFound, d)
      | Some s \<Rightarrow>
          if sess_owner s \<noteq> user then (Inl Forbidden, d)
          else if status s \<noteq> Active then (Inl InvalidState, d)
          else (let s' = s\<lparr>status := Paused, pausedAt := Some clock,
                            lastModifiedAt := clock\<rparr>
                in (Inr s', saveSession s' d)))"

definition resumeSession :: "nat \<Rightarrow> nat \<Rightarrow> int \<Rightarrow> db \<Rightarrow> (error + session) \<times> db" where
  "resumeSession user sessionId clock d =
     (case findSession sessionId d of
        None \<Rightarrow> (Inl NotFound, d)
      | Some s \<Rightarrow>
          if sess_owner s \<noteq> user then (Inl Forbidden, d)
          else if status s \<noteq> Paused then (Inl InvalidState, d)
          else (let s1 = s\<lparr>status := Active\<rparr>;
                    s2 = (case pausedAt s1 of
                            None \<Rightarrow> s1
                          | Some p \<Rightarrow>
                              s1\<lparr>totalPausedTime := totalPausedTime s1 + (clock - p),
                                  pausedAt := None\<rparr>);
                    s' = s2\<lparr>lastModifiedAt := clock\<rparr>
                in (Inr s', saveSession s' d)))"

definition confirmPayment ::
  "nat \<Rightarrow> nat \<Rightarrow> string \<Rightarrow> string \<Rightarrow> string \<Rightarrow> string \<Rightarrow> int \<Rightarrow> db
     \<Rightarrow> (error + session) \<times> db" where
  "confirmPayment user sessionId paymentStatus' paymentMethod' transactionId paymentNotes'
       clock d =
     (if \<not> (paymentStatus' = ''paid'' \<or> paymentStatus' = ''credit'')
      then (Inl ValidationFailed, d)
      else if paymentStatus' = ''paid''
              \<and> \<not> (paymentMethod' = ''esewa'' \<or> paymentMethod' = ''online_banking''
                     \<or> paymentMethod' = ''cash'')
      then (Inl ValidationFailed, d)
      else (case findSession sessionId d of
              None \<Rightarrow> (Inl NotFound, d)
            | Some s \<Rightarrow>
                if sess_owner s \<noteq> user then (Inl Forbidden, d)
                else if \<not> (status s = Active \<or> status s = Paused) then (Inl InvalidState, d)
                else (case updateTotalCost clock s of
                        Inl e \<Rightarrow> (Inl ServerFault, d)
                      | Inr s1 \<Rightarrow>
                          if paymentStatus' = ''paid'' then
                            (case markAsPaid clock paymentMethod' transactionId paymentNotes' s1 of
                               Inl e \<Rightarrow> (Inl ServerFault, saveSession s1 d)
                             | Inr s2 \<Rightarrow> (Inr s2, saveSession s2 d))
                          else if paymentStatus' = ''credit'' then
                            (let s2 = markAsCredit clock
                                        (if paymentNotes' = []
                                         then ''Payment credited - to be collected later''
                                         else paymentNotes') s1
                             in (Inr s2, saveSession s2 d))
                          else (Inr s1, saveSession s1 d))))"

definition endSession ::
  "nat \<Rightarrow> nat \<Rightarrow> string \<Rightarrow> int \<Rightarrow> db \<Rightarrow> (error + session) \<times> db" where
  "endSession user sessionId notes' clock d =
     (case findSession sessionId d of
        None \<Rightarrow> (Inl NotFound, d)
      | Some s \<Rightarrow>
          if sess_owner s \<noteq> user then (Inl Forbidden, d)
          else if \<not> (status s = Active \<or> status s = Paused) then (Inl InvalidState, d)
          else if paymentStatus s = Pending
          then (Inl (RequiresPaymentConfirmation (calculateCurrentCost clock s)), d)
          else (let s1 = s\<lparr>status := Completed, endTime := Some clock\<rparr>;
                    s2 = (if notes' \<noteq> [] then s1\<lparr>sess_notes := notes'\<rparr> else s1);
                    s3 = s2\<lparr>lastModifiedAt := clock\<rparr>;
                    s4 = (case pausedAt s3 of
                            None \<Rightarrow> s3
                          | Some p \<Rightarrow>
                              s3\<lparr>totalPausedTime := totalPausedTime s3 + (clock - p),
                                  pausedAt := None\<rparr>)
                in (case updateTotalCost clock s4 of
                      Inl e \<Rightarrow> (Inl ServerFault, d)
                    | Inr s5 \<Rightarrow> (Inr s5, freeTable (sess_table s5) (saveSession s5 d)))))"

text \<open>
  The loop of \<^verbatim>\<open>cancelSession\<close> over the session's items: each item reads its product
  afresh and adds the item's quantity back.
\<close>

fun restoreStock :: "sessionItem list \<Rightarrow> db \<Rightarrow> db" where
  "restoreStock [] d = d"
| "restoreStock (item # rest) d =
     restoreStock rest
       (case findProduct (item_product item) d of
          None \<Rightarrow> d
        | Some p \<Rightarrow> saveProduct (updateStock (of_int (item_quantity item)) ''add'' p) d)"

definition cancelSession :: "nat \<Rightarrow> nat \<Rightarrow> int \<Rightarrow> db \<Rightarrow> (error + session) \<times> db" where
  "cancelSession user sessionId clock d =
     (case findSession sessionId d of
        None \<Rightarrow> (Inl NotFound, d)
      | Some s \<Rightarrow>
          if sess_owner s \<noteq> user then (Inl Forbidden, d)
          else if status s = Completed then (Inl InvalidState, d)
          else (let d1 = restoreStock (items s) d;
                    s' = s\<lparr>status := Cancelled, endTime := Some clock,
                            lastModifiedAt := clock, paymentStatus := Pending,
                            paymentMethod := None, paymentMethodLabel := None,
                            totalPaidAmount := 0, remainingAmount := 0, payments := [],
                            paymentNotes := ''Session cancelled - payment reset''\<rparr>
                in (Inr s', freeTable (sess_table s') (saveSession s' d1))))"

section \<open>The stock endpoint (\<^verbatim>\<open>backend/controllers/inventoryController.js\<close>)\<close>

text \<open>
  The route of this handler mounts no schema validation, so the quantity is whatever JSON
  value the request body holds. An array or an object enters the handler's comparisons and
  the method's arithmetic through its string form, and behaves there as that string does.
\<close>

datatype json = JUndefined | JNull | JBool bool | JNum rat | JStr string

text \<open>
  The two conversions of the JavaScript runtime between strings and numbers are parameters
  of the model: \<^verbatim>\<open>Number(s)\<close>, with \<open>None\<close> for \<^verbatim>\<open>NaN\<close>, and \<^verbatim>\<open>String(x)\<close>.
\<close>

record runtime =
  numberOfString :: "string \<Rightarrow> rat option"
  stringOfNumber :: "rat \<Rightarrow> string"

definition truthy :: "json \<Rightarrow> bool" where
  "truthy v =
     (case v of
        JUndefined \<Rightarrow> False
      | JNull \<Rightarrow> False
      | JBool b \<Rightarrow> b
      | JNum x \<Rightarrow> x \<noteq> 0
      | JStr t \<Rightarrow> t \<noteq> [])"

definition toNumber :: "runtime \<Rightarrow> json \<Rightarrow> rat option" where
  "toNumber rt v =
     (case v of
        JUndefined \<Rightarrow> None
      | JNull \<Rightarrow> Some 0
      | JBool b \<Rightarrow> Some (if b then 1 else 0)
      | JNum x \<Rightarrow> Some x
      | JStr t \<Rightarrow> numberOfString rt t)"

text \<open>
  The method \<^verbatim>\<open>updateStock\<close> on any JSON value, with its \<^verbatim>\<open>this.save()\<close>. For
  \<open>add\<close>, \<^verbatim>\<open>this.currentStock += quantity\<close> concatenates when the quantity is a string,
  and the Number path casts the resulting string back with \<^verbatim>\<open>Number\<close> (the empty string
  is cast to \<^verbatim>\<open>null\<close>, which the required path refuses); every other case is the numeric
  method on the quantity's number. The save rejects a stock that is \<^verbatim>\<open>NaN\<close> or below
  the schema's minimum 0.
\<close>

definition updateStock_json ::
  "runtime \<Rightarrow> json \<Rightarrow> string \<Rightarrow> product \<Rightarrow> error + product" where
  "updateStock_json rt quantity operation p =
     (let newStock =
            (if operation = ''add'' then
               (case quantity of
                  JStr t \<Rightarrow>
                    (let joined = stringOfNumber rt (currentStock p) @ t
                     in if joined = [] then None else numberOfString rt joined)
                | _ \<Rightarrow>
                    (case toNumber rt quantity of
                       None \<Rightarrow> None
                     | Some q \<Rightarrow> Some (currentStock (updateStock q operation p))))
             else if operation = ''subtract'' \<or> operation = ''set'' then
               (case toNumber rt quantity of
                  None \<Rightarrow> None
                | Some q \<Rightarrow> Some (currentStock (updateStock q operation p)))
             else Some (currentStock p))
      in (case newStock of
            None \<Rightarrow> Inl ValidationFailed
          | Some v \<Rightarrow>
              if v < 0 then Inl ValidationFailed else Inr (p\<lparr>currentStock := v\<rparr>)))"

text \<open>
  The handler \<^verbatim>\<open>updateStock\<close> of the inventory controller. Its own test
  \<^verbatim>\<open>!quantity || quantity <= 0\<close> compares the quantity's number with 0, and a comparison
  with \<^verbatim>\<open>NaN\<close> is false.
\<close>

definition updateStock_endpoint ::
  "runtime \<Rightarrow> nat \<Rightarrow> nat \<Rightarrow> json \<Rightarrow> string \<Rightarrow> db \<Rightarrow> (error + product) \<times> db" where
  "updateStock_endpoint rt user productId quantity operation d =
     (case findProduct productId d of
        None \<Rightarrow> (Inl NotFound, d)
      | Some p \<Rightarrow>
          if prod_owner p \<noteq> user then (Inl Forbidden, d)
          else if \<not> truthy quantity then (Inl ValidationFailed, d)
          else if (case toNumber rt quantity of None \<Rightarrow> False | Some q \<Rightarrow> q \<le> 0)
          then (Inl ValidationFailed, d)
          else (case updateStock_json rt quantity operation p of
                  Inl e \<Rightarrow> (Inl ServerFault, d)
                | Inr p' \<Rightarrow> (Inr p', saveProduct p' d)))"

section \<open>Sequences of requests\<close>

datatype request =
    StartSession nat nat
  | AddItem nat nat nat int
  | RemoveItem nat nat nat
  | Pause nat nat
  | Resume nat nat
  | ConfirmPayment nat nat string string string string
  | EndSession nat nat string
  | CancelSession nat nat
  | UpdateStock nat nat json string

text \<open>
  One request, served at the given clock value under the given runtime; the reply is
  dropped.
\<close>

fun step :: "runtime \<Rightarrow> int \<times> request \<Rightarrow> db \<Rightarrow> db" where
  "step rt (clock, StartSession user tableId) d = snd (startSession user tableId clock d)"
| "step rt (clock, AddItem user sessionId productId quantity) d =
     snd (addItemToSession user sessionId productId quantity clock d)"
| "step rt (clock, RemoveItem user sessionId itemId) d =
     snd (removeItemFromSession user sessionId itemId clock d)"
| "step rt (clock, Pause user sessionId) d = snd (pauseSession user sessionId clock d)"
| "step rt (clock, Resume user sessionId) d = snd (resumeSession user sessionId clock d)"
| "step rt (clock, ConfirmPayment user sessionId st m txn nts) d =
     snd (confirmPayment user sessionId st m txn nts clock d)"
| "step rt (clock, EndSession user sessionId nts) d =
     snd (endSession user sessionId nts clock d)"
| "step rt (clock, CancelSession user sessionId) d = snd (cancelSession user sessionId clock d)"
| "step rt (clock, UpdateStock user productId quantity operation) d =
     snd (updateStock_endpoint rt user productId quantity operation d)"

fun run :: "runtime \<Rightarrow> (int \<times> request) list \<Rightarrow> db \<Rightarrow> db" where
  "run rt [] d = d"
| "run rt (r # rs) d = run rt rs (step rt r d)"

section \<open>Predicates used in the statements\<close>

text \<open>
  The payment fields of a session agree with what \<^verbatim>\<open>updatePaymentAmounts\<close> derives
  from the payments list and the stored total cost.
\<close>

definition payment_derived :: "session \<Rightarrow> bool" where
  "payment_derived s =
     (totalPaidAmount s = foldl js_add 0 (map pay_amount (payments s))
      \<and> remainingAmount s = max 0 (js_sub (totalCost s) (totalPaidAmount s))
      \<and> paymentStatus s =
          (if totalPaidAmount s = 0 then Pending
           else if totalPaidAmount s \<ge> totalCost s then Paid else Credit))"

text \<open>The total quantity of a product among a session's items.\<close>

definition itemsQuantity :: "nat \<Rightarrow> sessionItem list \<Rightarrow> int" where
  "itemsQuantity productId its =
     sum_list (map item_quantity (filter (\<lambda>it. item_product it = productId) its))"

definition addStock :: "rat \<Rightarrow> product \<Rightarrow> product" where
  "addStock q p = p\<lparr>currentStock := currentStock p + q\<rparr>"

text \<open>
  The rates that the session's pricing method reads are defined, so that the game cost is a
  number.
\<close>

definition ratesDefined :: "session \<Rightarrow> bool" where
  "ratesDefined s =
     (case pricingMethod s of
        PerMinute \<Rightarrow> \<not> (minuteRate s = Undefined \<and> hourlyRate s = Undefined)
      | FrameKitti \<Rightarrow> \<not> (frameRate s = Undefined \<or> kittiRate s = Undefined))"

text \<open>
  A session is open when it is active or paused; \<open>openSessions\<close> lists the open sessions
  that refer to a table, the same filter as \<^verbatim>\<open>getActiveSession\<close>.
\<close>

definition isOpen :: "session \<Rightarrow> bool" where
  "isOpen s = (status s = Active \<or> status s = Paused)"

definition openSessions :: "nat \<Rightarrow> db \<Rightarrow> session list" where
  "openSessions tableId d =
     filter (\<lambda>s. sess_table s = tableId \<and> (status s = Active \<or> status s = Paused))
       (sessions d)"

definition atMostOneOpen :: "db \<Rightarrow> bool" where
  "atMostOneOpen d =
     list_all (\<lambda>s. length (openSessions (sess_table s) d) \<le> 1) (sessions d)"

text \<open>Object ids: the stored sessions have distinct ids, all below the next fresh id.\<close>

definition idsFresh :: "db \<Rightarrow> bool" where
  "idsFresh d =
     (distinct (map sess_id (sessions d))
      \<and> list_all (\<lambda>s. sess_id s < nextId d) (sessions d))"

text \<open>No product has negative stock; every stored session item has a quantity of at least 1
  (the minimum of the item schema).\<close>

definition stockNonNegative :: "db \<Rightarrow> bool" where
  "stockNonNegative d = list_all (\<lambda>p. 0 \<le> currentStock p) (products d)"

definition itemQuantitiesOk :: "db \<Rightarrow> bool" where
  "itemQuantitiesOk d =
     list_all (\<lambda>s. list_all (\<lambda>it. 1 \<le> item_quantity it) (items s)) (sessions d)"

text \<open>An end time is stored only on sessions that are no longer open, and is never the
  epoch.\<close>

definition endTimeOk :: "session \<Rightarrow> bool" where
  "endTimeOk s =
     ((if status s = Active \<or> status s = Paused then endTime s = None else True)
      \<and> endTime s \<noteq> Some 0)"

text \<open>
  How a handler may change a stored session: id and table stay, a closed session stays
  closed, items are kept or removed or added with a quantity of at least 1, and the end time
  is only set, to the clock, when the session is closed.
\<close>

definition evolves :: "int \<Rightarrow> session \<Rightarrow> session \<Rightarrow> bool" where
  "evolves clock s s' =
     (sess_id s' = sess_id s \<and> sess_table s' = sess_table s
      \<and> (if isOpen s' then isOpen s \<and> endTime s' = endTime s
          else endTime s' = endTime s \<or> endTime s' = Some clock)
      \<and> list_all (\<lambda>it. it \<in> set (items s) \<or> 1 \<le> item_quantity it) (items s'))"

text \<open>
  The three ways in which a handler changes the sessions collection: not at all, by saving
  an evolved version of a stored session, or by inserting a new session with a fresh id for a
  table that has no open session.
\<close>

inductive sessionsChange :: "int \<Rightarrow> db \<Rightarrow> db \<Rightarrow> bool" for c :: int and d :: db where
  unchanged:
    "sessions d' = sessions d \<Longrightarrow> nextId d \<le> nextId d' \<Longrightarrow> sessionsChange c d d'"
| saved:
    "findSession (sess_id s') d = Some s \<Longrightarrow> evolves c s s' \<Longrightarrow>
     sessions d' = sessions (saveSession s' d) \<Longrightarrow> nextId d \<le> nextId d' \<Longrightarrow>
     sessionsChange c d d'"
| started:
    "sessions d' = sessions d @ [s'] \<Longrightarrow> sess_id s' = nextId d \<Longrightarrow>
     nextId d < nextId d' \<Longrightarrow> getActiveSession (sess_table s') d = None \<Longrightarrow>
     endTime s' = None \<Longrightarrow> items s' = [] \<Longrightarrow>
     sessionsChange c d d'"

section \<open>Example documents\<close>

definition demo_table :: table where
  "demo_table =
     \<lparr>tbl_id = 3, tbl_owner = 7, tbl_status = TableActive, tbl_pricingMethod = PerMinute,
      tbl_hourlyRate = Number 100, tbl_frameRate = Undefined, tbl_kittiRate = Undefined,
      isOccupied = False, currentBooking = None\<rparr>"

definition demo_product :: product where
  "demo_product =
     \<lparr>prod_id = 2, prod_owner = 7, prod_name = ''cola'', prod_costPrice = 50,
      prod_sellingPrice = 80, currentStock = 10\<rparr>"

definition demo_db :: db where
  "demo_db = \<lparr>tables = [demo_table], sessions = [], products = [demo_product], nextId = 10\<rparr>"

text \<open>
  A runtime for the examples: decimal digits for the natural numbers, on which it agrees
  with \<^verbatim>\<open>String\<close> and \<^verbatim>\<open>Number\<close>; other strings are not numbers here.
\<close>

fun decimal :: "nat \<Rightarrow> string" where
  "decimal n =
     (if n < 10 then [char_of (48 + n)]
      else decimal (n div 10) @ [char_of (48 + n mod 10)])"

definition digitValue :: "char \<Rightarrow> nat option" where
  "digitValue ch =
     (if 48 \<le> (of_char ch :: nat) \<and> (of_char ch :: nat) \<le> 57
      then Some (of_char ch - 48) else None)"

fun readDecimal :: "nat \<Rightarrow> string \<Rightarrow> nat option" where
  "readDecimal acc [] = Some acc"
| "readDecimal acc (ch # rest) =
     (case digitValue ch of
        None \<Rightarrow> None
      | Some v \<Rightarrow> readDecimal (acc * 10 + v) rest)"

definition demo_runtime :: runtime where
  "demo_runtime =
     \<lparr>numberOfString =
        (\<lambda>t. if t = [] then Some 0 else map_option of_nat (readDecimal 0 t)),
      stringOfNumber = (\<lambda>x. if x = of_int \<lfloor>x\<rfloor> \<and> 0 \<le> x then decimal (nat \<lfloor>x\<rfloor>) else ''?'')\<rparr>"

definition cash :: "rat \<Rightarrow> paymentData" where
  "cash a = \<lparr>pd_method = ''cash'', pd_amount = a, pd_transactionId = [], pd_notes = []\<rparr>"

definition demo_item :: sessionItem where
  "demo_item =
     \<lparr>item_id = 11, item_product = 2, item_productName = ''cola'', item_quantity = 3,
      item_costPrice = 50, item_sellingPrice = 80, item_totalCost = 150,
      item_totalRevenue = 240, item_profit = 90, item_addedAt = 0\<rparr>"

definition demo_payment :: payment where
  "demo_payment =
     \<lparr>pay_method = ''cash'', pay_methodLabel = ''Cash'', pay_amount = 100,
      pay_transactionId = [], pay_notes = [], pay_paidAt = 0\<rparr>"

text \<open>An open session with three units of the product and a recorded payment of 100.\<close>

definition demo_session :: session where
  "demo_session =
     (newSession 0 10 7 demo_table)
       \<lparr>items := [demo_item], totalItems := 3, totalItemsCost := 150,
        totalItemsRevenue := 240, totalItemsProfit := 90, totalCost := 240,
        paymentStatus := Credit, paymentMethod := Some ''cash'',
        paymentMethodLabel := Some ''Cash'', payments := [demo_payment],
        totalPaidAmount := 100, remainingAmount := 140\<rparr>"

definition demo_db_open :: db where
  "demo_db_open =
     \<lparr>tables = [demo_table\<lparr>isOccupied := True, currentBooking := Some 10\<rparr>],
      sessions = [demo_session],
      products = [demo_product\<lparr>currentStock := 7\<rparr>],
      nextId = 12\<rparr>"

section \<open>Payment bookkeeping\<close>

lemma pow2_pos: "0 < pow2 k"
  by (simp add: pow2_def)

lemma round_double_nonneg:
  assumes "0 \<le> x"
  shows "0 \<le> round_double x"
proof (cases "x = 0")
  case True
  then show ?thesis by (simp add: round_double_def)
next
  case False
  define e where "e = max (floorLog2 \<bar>x\<bar> - 52) (- 1074)"
  define m where "m = \<bar>x\<bar> / pow2 e"
  have "0 \<le> m"
    using pow2_pos[of e] by (simp add: m_def)
  then have n: "0 \<le> \<lfloor>m\<rfloor>" by simp
  have s: "sgn x = 1"
    using assms False by simp
  show ?thesis
    using False n pow2_pos[of e] s
    by (simp add: round_double_def Let_def e_def[symmetric] m_def[symmetric])
qed

lemma js_sub_self: "js_sub x x = 0"
  by (simp add: js_sub_def round_double_def)

lemma js_add_zero: "js_add 0 0 = 0"
  by (simp add: js_add_def round_double_def)

lemma js_sub_nonneg: "y \<le> x \<Longrightarrow> 0 \<le> js_sub x y"
  by (simp add: js_sub_def round_double_nonneg)



lemma updatePaymentAmounts_fields:
  "payments (updatePaymentAmounts clock s) = payments s"
  "totalCost (updatePaymentAmounts clock s) = totalCost s"
  "status (updatePaymentAmounts clock s) = status s"
  "items (updatePaymentAmounts clock s) = items s"
  "sess_id (updatePaymentAmounts clock s) = sess_id s"
  "sess_table (updatePaymentAmounts clock s) = sess_table s"
  "sess_owner (updatePaymentAmounts clock s) = sess_owner s"
  by (simp_all add: updatePaymentAmounts_def Let_def)

lemma updatePaymentAmounts_derived: "payment_derived (updatePaymentAmounts clock s)"
  by (simp add: updatePaymentAmounts_def payment_derived_def Let_def)

lemma recordPayment_negative:
  assumes "pd_amount pd < 0"
  shows "\<exists>e. recordPayment clock pd s = Inl e"
  using assms by (simp add: recordPayment_def Let_def split: option.splits)

lemma recordPayment_Inr:
  assumes "validMethods (pd_method pd) \<noteq> None" "0 \<le> pd_amount pd"
  shows "\<exists>s'. recordPayment clock pd s = Inr s' \<and> payment_derived s'
           \<and> totalCost s' = totalCost s
           \<and> map pay_amount (payments s') = map pay_amount (payments s) @ [pd_amount pd]"
  using assms
  by (auto simp: recordPayment_def Let_def updatePaymentAmounts_derived
        updatePaymentAmounts_fields)

lemma recordPayments_Inr:
  assumes "\<forall>pd \<in> set pds. validMethods (pd_method pd) \<noteq> None \<and> 0 \<le> pd_amount pd"
    and "pds \<noteq> [] \<or> payment_derived s"
  shows "\<exists>s'. recordPayments clock pds s = Inr s' \<and> payment_derived s'
           \<and> totalCost s' = totalCost s
           \<and> map pay_amount (payments s') = map pay_amount (payments s) @ map pd_amount pds"
  using assms
proof (induction pds arbitrary: s)
  case Nil
  then show ?case by simp
next
  case (Cons pd pds)
  from Cons.prems obtain s1 where s1: "recordPayment clock pd s = Inr s1"
    "payment_derived s1" "totalCost s1 = totalCost s"
    "map pay_amount (payments s1) = map pay_amount (payments s) @ [pd_amount pd]"
    using recordPayment_Inr[of pd clock s] by auto
  from Cons.IH[of s1] Cons.prems s1(2) obtain s' where
    "recordPayments clock pds s1 = Inr s'" "payment_derived s'" "totalCost s' = totalCost s1"
    "map pay_amount (payments s') = map pay_amount (payments s1) @ map pd_amount pds"
    by auto
  with s1 show ?case by simp
qed



text \<open>
  The values of the examples: \<^verbatim>\<open>0.1 + 0.2\<close> and \<^verbatim>\<open>0.1 + 0.1 + 0.1\<close> are both the
  double \<^verbatim>\<open>0.30000000000000004\<close>, above the exact sum of the doubles \<^verbatim>\<open>0.1\<close> and
  \<^verbatim>\<open>0.2\<close>; \<^verbatim>\<open>0.7 + 0.1\<close> is the double \<^verbatim>\<open>0.7999999999999999\<close>, below \<^verbatim>\<open>0.8\<close>.
\<close>

lemma double_tenth: "double (1 / 10) = 3602879701896397 / 36028797018963968"
  by code_simp

lemma double_fifth: "double (1 / 5) = 3602879701896397 / 18014398509481984"
  by code_simp

lemma double_seven_tenths: "double (7 / 10) = 3152519739159347 / 4503599627370496"
  by code_simp

lemma double_four_fifths: "double (4 / 5) = 3602879701896397 / 4503599627370496"
  by code_simp




lemma sum_seven_tenths: "js_add 0 (double (7 / 10)) = double (7 / 10)"
  by code_simp

lemma sum_seven_tenths_tenth:
  "js_add (double (7 / 10)) (double (1 / 10)) = 7205759403792793 / 9007199254740992"
  by code_simp


lemma difference_four_fifths:
  "js_sub (double (4 / 5)) (7205759403792793 / 9007199254740992) = 1 / 9007199254740992"
  by code_simp



text \<open>
  Rounding also works the other way: payments of \<^verbatim>\<open>0.7\<close> and \<^verbatim>\<open>0.1\<close> against a total
  of \<^verbatim>\<open>0.8\<close> leave the session on credit, with \<^verbatim>\<open>1.1102230246251565e-16\<close> remaining.
\<close>

lemma below_four_fifths:
  "\<not> double (4 / 5) \<le> (7205759403792793 / 9007199254740992 :: rat)"
  by code_simp

lemma payment_rounding_example:
  "\<exists>s'. recordPayments 5 [cash (double (7 / 10)), cash (double (1 / 10))]
            ((newSession 0 10 7 demo_table)\<lparr>totalCost := double (4 / 5)\<rparr>) = Inr s'
        \<and> totalPaidAmount s' = 7205759403792793 / 9007199254740992
        \<and> paymentStatus s' = Credit
        \<and> remainingAmount s' = 1 / 9007199254740992"
proof -
  let ?pds = "[cash (double (7 / 10)), cash (double (1 / 10))]"
  let ?s = "(newSession 0 10 7 demo_table)\<lparr>totalCost := double (4 / 5)\<rparr>"
  have nn: "0 \<le> double (7 / 10)" "0 \<le> double (1 / 10)"
    by (simp_all add: double_def round_double_nonneg)
  have "\<forall>pd \<in> set ?pds. validMethods (pd_method pd) \<noteq> None \<and> 0 \<le> pd_amount pd"
    using nn by (simp add: cash_def validMethods_def)
  from recordPayments_Inr[OF this, of ?s 5]
  obtain s' where s': "recordPayments 5 ?pds ?s = Inr s'" "payment_derived s'"
    "totalCost s' = double (4 / 5)"
    "map pay_amount (payments s') = map pay_amount (payments ?s) @ map pd_amount ?pds"
    by auto
  have p: "totalPaidAmount s' = 7205759403792793 / 9007199254740992"
    using s'(2,4)
    by (simp add: payment_derived_def newSession_def cash_def sum_seven_tenths
          sum_seven_tenths_tenth)
  have "paymentStatus s' = Credit"
    using s'(2,3) p below_four_fifths by (simp add: payment_derived_def)
  moreover have "remainingAmount s' = 1 / 9007199254740992"
    using s'(2,3) p by (simp add: payment_derived_def difference_four_fifths)
  ultimately show ?thesis
    using s'(1) p by blast
qed


section \<open>The total recomputation\<close>

lemma calculateItemsTotals_idem:
  "calculateItemsTotals (calculateItemsTotals s) = calculateItemsTotals s"
  by (simp add: calculateItemsTotals_def Let_def)

lemma getDurationInMinutes_cong:
  assumes "status s' = status s" "endTime s' = endTime s" "startTime s' = startTime s"
    "totalPausedTime s' = totalPausedTime s" "pausedAt s' = pausedAt s"
  shows "getDurationInMinutes clock s' = getDurationInMinutes clock s"
  using assms by (simp add: getDurationInMinutes_def split: option.splits)

lemma calculateGameCost_cong:
  assumes "status s' = status s" "endTime s' = endTime s" "startTime s' = startTime s"
    "totalPausedTime s' = totalPausedTime s" "pausedAt s' = pausedAt s"
    "pricingMethod s' = pricingMethod s" "minuteRate s' = minuteRate s"
    "hourlyRate s' = hourlyRate s" "frameRate s' = frameRate s" "kittiRate s' = kittiRate s"
    "frames s' = frames s" "kittis s' = kittis s"
  shows "calculateGameCost clock s' = calculateGameCost clock s"
  using assms getDurationInMinutes_cong[of s' s clock]
  by (simp add: calculateGameCost_def Let_def split: option.splits pricing_method.splits)

lemma calculateGameCost_updates [simp]:
  "calculateGameCost clock (calculateItemsTotals s) = calculateGameCost clock s"
  "calculateGameCost clock (updatePaymentAmounts c s) = calculateGameCost clock s"
  "calculateGameCost clock (s\<lparr>gameCost := g\<rparr>) = calculateGameCost clock s"
  "calculateGameCost clock (s\<lparr>totalCost := t\<rparr>) = calculateGameCost clock s"
  by (rule calculateGameCost_cong;
      simp add: calculateItemsTotals_def updatePaymentAmounts_def Let_def)+

lemma updatePaymentAmounts_idem:
  "updatePaymentAmounts clock (updatePaymentAmounts clock s) = updatePaymentAmounts clock s"
  by (simp add: updatePaymentAmounts_def Let_def split: option.splits)

lemma updatePaymentAmounts_keeps:
  "gameCost (updatePaymentAmounts clock s) = gameCost s"
  "totalItemsRevenue (updatePaymentAmounts clock s) = totalItemsRevenue s"
  "calculateItemsTotals (updatePaymentAmounts clock s)
     = updatePaymentAmounts clock (calculateItemsTotals s)"
  by (simp_all add: updatePaymentAmounts_def calculateItemsTotals_def Let_def)

text \<open>
  Claim C8. When the total recomputation \<^verbatim>\<open>updateTotalCost\<close> has run on a session, running
  it again at the same clock value on the result returns that result unchanged: the game
  cost, the items revenue and the total cost (and every other field) are identical.
\<close>

theorem updateTotalCost_idempotent:
  assumes "updateTotalCost clock s = Inr s1"
  shows "\<exists>s2. updateTotalCost clock s1 = Inr s2
           \<and> gameCost s2 = gameCost s1
           \<and> totalItemsRevenue s2 = totalItemsRevenue s1
           \<and> totalCost s2 = totalCost s1
           \<and> s2 = s1"
proof -
  define s0 where "s0 = calculateItemsTotals s"
  obtain g where g: "calculateGameCost clock s = Some g"
    and s1: "s1 = updatePaymentAmounts clock
               (s0\<lparr>gameCost := g, totalCost := g + totalItemsRevenue s0\<rparr>)"
    using assms
    by (auto simp: updateTotalCost_def Let_def s0_def split: option.splits)
  have items1: "calculateItemsTotals s1 = s1"
    unfolding s1 s0_def
    by (simp add: calculateItemsTotals_def updatePaymentAmounts_def Let_def)
  have cost1: "calculateGameCost clock s1 = Some g"
    unfolding s1 s0_def using g by simp
  have fields: "gameCost s1 = g" "totalCost s1 = g + totalItemsRevenue s1"
    unfolding s1 by (simp_all add: updatePaymentAmounts_keeps updatePaymentAmounts_fields)
  have same: "s1\<lparr>gameCost := g, totalCost := g + totalItemsRevenue s1\<rparr> = s1"
    using fields by simp
  have pay1: "updatePaymentAmounts clock s1 = s1"
    unfolding s1 by (rule updatePaymentAmounts_idem)
  have "updateTotalCost clock s1 = Inr s1"
    by (simp add: updateTotalCost_def Let_def items1 cost1 same pay1)
  then show ?thesis by simp
qed

lemma js_sub_3000: "js_sub 3000 0 = 3000"
  by code_simp

theorem updateTotalCost_idempotent_witness:
  "updateTotalCost 1800000 (newSession 0 10 7 demo_table)
     = Inr ((newSession 0 10 7 demo_table)\<lparr>gameCost := 3000, totalCost := 3000, remainingAmount := 3000\<rparr>)
   \<and> updateTotalCost 1800000
        ((newSession 0 10 7 demo_table)\<lparr>gameCost := 3000, totalCost := 3000, remainingAmount := 3000\<rparr>)
     = Inr ((newSession 0 10 7 demo_table)\<lparr>gameCost := 3000, totalCost := 3000, remainingAmount := 3000\<rparr>)"
proof -
  have h: "updateTotalCost 1800000 (newSession 0 10 7 demo_table)
     = Inr ((newSession 0 10 7 demo_table)\<lparr>gameCost := 3000, totalCost := 3000, remainingAmount := 3000\<rparr>)"
    by (simp add: updateTotalCost_def calculateItemsTotals_def calculateGameCost_def
          getDurationInMinutes_def updatePaymentAmounts_def newSession_def demo_table_def
          numberOf_def js_sub_3000 Let_def)
  from updateTotalCost_idempotent[OF h] h show ?thesis by simp
qed

section \<open>The store\<close>

lemma find_by_id:
  "find (\<lambda>x. f x = i) xs = Some y \<Longrightarrow> f y = i \<and> y \<in> set xs"
  by (induction xs) (auto split: if_splits)

lemma find_replace:
  "find (\<lambda>x. f x = i) (map (\<lambda>x. if f x = f y then y else x) xs) =
     (if f y = i then (case find (\<lambda>x. f x = i) xs of None \<Rightarrow> None | Some z \<Rightarrow> Some y)
      else find (\<lambda>x. f x = i) xs)"
  by (induction xs) auto

lemma findSession_Some: "findSession i d = Some s \<Longrightarrow> sess_id s = i \<and> s \<in> set (sessions d)"
  unfolding findSession_def by (rule find_by_id)

lemma findProduct_Some: "findProduct i d = Some p \<Longrightarrow> prod_id p = i \<and> p \<in> set (products d)"
  unfolding findProduct_def by (rule find_by_id)

lemma findTable_Some: "findTable i d = Some t \<Longrightarrow> tbl_id t = i \<and> t \<in> set (tables d)"
  unfolding findTable_def by (rule find_by_id)

lemma findSession_saveSession:
  "findSession i (saveSession s' d) =
     (if sess_id s' = i then (case findSession i d of None \<Rightarrow> None | Some z \<Rightarrow> Some s')
      else findSession i d)"
  by (simp add: findSession_def saveSession_def find_replace)

lemma findProduct_saveProduct:
  "findProduct i (saveProduct p' d) =
     (if prod_id p' = i then (case findProduct i d of None \<Rightarrow> None | Some z \<Rightarrow> Some p')
      else findProduct i d)"
  by (simp add: findProduct_def saveProduct_def find_replace)

lemma save_other_collections [simp]:
  "sessions (saveProduct p d) = sessions d" "tables (saveProduct p d) = tables d"
  "nextId (saveProduct p d) = nextId d"
  "products (saveSession s d) = products d" "tables (saveSession s d) = tables d"
  "nextId (saveSession s d) = nextId d"
  "products (saveTable t d) = products d" "sessions (saveTable t d) = sessions d"
  "nextId (saveTable t d) = nextId d"
  "products (freeTable i d) = products d" "sessions (freeTable i d) = sessions d"
  "nextId (freeTable i d) = nextId d"
  by (simp_all add: saveProduct_def saveSession_def saveTable_def freeTable_def
        split: option.splits)

lemma find_other_collections [simp]:
  "findSession i (saveProduct p d) = findSession i d"
  "findSession i (saveTable t d) = findSession i d"
  "findSession i (freeTable j d) = findSession i d"
  "findProduct i (saveSession s d) = findProduct i d"
  "findProduct i (saveTable t d) = findProduct i d"
  "findProduct i (freeTable j d) = findProduct i d"
  "findTable i (saveSession s d) = findTable i d"
  "findTable i (saveProduct p d) = findTable i d"
  by (simp_all add: findSession_def findProduct_def findTable_def)

lemma updateStock_add: "updateStock q ''add'' p = addStock q p"
  by (simp add: updateStock_def addStock_def)

lemma addStock_id [simp]: "prod_id (addStock q p) = prod_id p"
  by (simp add: addStock_def)

lemma addStock_addStock: "addStock q (addStock r p) = addStock (r + q) p"
  by (simp add: addStock_def)

lemma addStock_zero [simp]: "addStock 0 p = p"
  by (simp add: addStock_def)

lemma restoreStock_other [simp]:
  "sessions (restoreStock its d) = sessions d"
  "tables (restoreStock its d) = tables d"
  "nextId (restoreStock its d) = nextId d"
  by (induction its arbitrary: d; simp split: option.splits)+

lemma findSession_restoreStock [simp]: "findSession i (restoreStock its d) = findSession i d"
  by (simp add: findSession_def)

lemma findTable_restoreStock [simp]: "findTable i (restoreStock its d) = findTable i d"
  by (simp add: findTable_def)

lemma findProduct_restoreStock:
  "findProduct a (restoreStock its d) =
     map_option (addStock (of_int (itemsQuantity a its))) (findProduct a d)"
proof (induction its arbitrary: d)
  case Nil
  show ?case by (simp add: itemsQuantity_def option.map_ident)
next
  case (Cons item rest)
  show ?case
  proof (cases "findProduct (item_product item) d")
    case None
    then show ?thesis
      using Cons.IH[of d] by (auto simp: itemsQuantity_def)
  next
    case (Some p)
    then have pid: "prod_id p = item_product item" by (simp add: findProduct_Some)
    show ?thesis
      using Cons.IH[of "saveProduct (addStock (of_int (item_quantity item)) p) d"] Some pid
      by (auto simp: updateStock_add findProduct_saveProduct itemsQuantity_def
            addStock_addStock option.map_comp comp_def)
  qed
qed

section \<open>Cancelling a session\<close>

lemma cancelSession_ok:
  assumes "findSession i d = Some s" "sess_owner s = u" "status s \<noteq> Completed"
  shows "\<exists>s' d'. cancelSession u i clock d = (Inr s', d')
           \<and> findSession i d' = Some s'
           \<and> s' = s\<lparr>status := Cancelled, endTime := Some clock,
                      lastModifiedAt := clock, paymentStatus := Pending,
                      paymentMethod := None, paymentMethodLabel := None,
                      totalPaidAmount := 0, remainingAmount := 0, payments := [],
                      paymentNotes := ''Session cancelled - payment reset''\<rparr>
           \<and> (\<forall>a. findProduct a d' =
                  map_option (addStock (of_int (itemsQuantity a (items s)))) (findProduct a d))"
  using assms findSession_Some[OF assms(1)]
  by (simp add: cancelSession_def Let_def findSession_saveSession findProduct_restoreStock)

text \<open>
  Claim C5. Cancelling a session that is found, owned by the caller and not completed
  succeeds. Every product gets back the quantities of the session's items that refer to it
  (three units for the item list \<open>[(productA, 3)]\<close>); the stored session is cancelled with
  its end time set, and its payment status is pending, its paid and remaining amounts are
  zero and its payments list is empty, whatever was paid before.
\<close>

theorem cancelSession_restores_stock_and_resets_payment:
  assumes "findSession i d = Some s" "sess_owner s = u" "status s \<noteq> Completed"
  shows "\<exists>s' d'. cancelSession u i clock d = (Inr s', d')
           \<and> findSession i d' = Some s'
           \<and> status s' = Cancelled \<and> endTime s' = Some clock
           \<and> paymentStatus s' = Pending \<and> totalPaidAmount s' = 0
           \<and> remainingAmount s' = 0 \<and> payments s' = []
           \<and> (\<forall>a. findProduct a d' =
                  map_option (addStock (of_int (itemsQuantity a (items s)))) (findProduct a d))"
proof -
  from cancelSession_ok[OF assms, of clock] obtain s' d' where
    r: "cancelSession u i clock d = (Inr s', d')" "findSession i d' = Some s'"
      "s' = s\<lparr>status := Cancelled, endTime := Some clock,
                      lastModifiedAt := clock, paymentStatus := Pending,
                      paymentMethod := None, paymentMethodLabel := None,
                      totalPaidAmount := 0, remainingAmount := 0, payments := [],
                      paymentNotes := ''Session cancelled - payment reset''\<rparr>"
      "\<forall>a. findProduct a d' =
                  map_option (addStock (of_int (itemsQuantity a (items s)))) (findProduct a d)"
    by blast
  show ?thesis
    apply (rule exI[of _ s'], rule exI[of _ d'])
    using r by simp
qed

theorem cancelSession_restores_stock_and_resets_payment_witness:
  "\<exists>s' d'. cancelSession 7 10 500 demo_db_open = (Inr s', d')
      \<and> status s' = Cancelled \<and> endTime s' = Some 500 \<and> paymentStatus s' = Pending
      \<and> totalPaidAmount s' = 0 \<and> remainingAmount s' = 0 \<and> payments s' = []
      \<and> findProduct 2 demo_db_open = Some (demo_product\<lparr>currentStock := 7\<rparr>)
      \<and> findProduct 2 d' = Some (demo_product\<lparr>currentStock := 10\<rparr>)"
proof -
  have h1: "findSession 10 demo_db_open = Some demo_session"
    by (simp add: findSession_def demo_db_open_def demo_session_def newSession_def)
  have h2: "sess_owner demo_session = 7"
    by (simp add: demo_session_def newSession_def)
  have h3: "status demo_session \<noteq> Completed"
    by (simp add: demo_session_def newSession_def)
  have p: "findProduct 2 demo_db_open = Some (demo_product\<lparr>currentStock := 7\<rparr>)"
    by (simp add: findProduct_def demo_db_open_def demo_product_def)
  have q: "itemsQuantity 2 (items demo_session) = 3"
    by (simp add: itemsQuantity_def demo_session_def demo_item_def)
  from cancelSession_restores_stock_and_resets_payment[OF h1 h2 h3, of 500]
  show ?thesis
    by (auto simp: p q addStock_def)
qed

lemma cancelSession_rejects_iff:
  assumes "findSession i d = Some s" "sess_owner s = u"
  shows "(\<exists>e. fst (cancelSession u i clock d) = Inl e) \<longleftrightarrow> status s = Completed"
  using assms by (simp add: cancelSession_def Let_def)

lemma cancel_repeated:
  assumes "findSession i d = Some s" "sess_owner s = u" "status s \<noteq> Completed"
  shows "findProduct a (run rt (map (\<lambda>c. (c, CancelSession u i)) cs) d) =
           map_option (addStock (of_nat (length cs) * of_int (itemsQuantity a (items s))))
             (findProduct a d)"
  using assms
proof (induction cs arbitrary: d s)
  case Nil
  show ?case by (simp add: option.map_ident)
next
  case (Cons c cs)
  from cancelSession_ok[OF Cons.prems, of c] obtain s' d' where
    r: "cancelSession u i c d = (Inr s', d')" "findSession i d' = Some s'"
      "s' = s\<lparr>status := Cancelled, endTime := Some c,
                      lastModifiedAt := c, paymentStatus := Pending,
                      paymentMethod := None, paymentMethodLabel := None,
                      totalPaidAmount := 0, remainingAmount := 0, payments := [],
                      paymentNotes := ''Session cancelled - payment reset''\<rparr>"
      "\<forall>a. findProduct a d' =
                  map_option (addStock (of_int (itemsQuantity a (items s)))) (findProduct a d)"
    by blast
  have s': "sess_owner s' = u" "status s' \<noteq> Completed" "items s' = items s"
    using r(3) Cons.prems by simp_all
  have "findProduct a (run rt (map (\<lambda>c. (c, CancelSession u i)) cs) d') =
          map_option (addStock (of_nat (length cs) * of_int (itemsQuantity a (items s'))))
            (findProduct a d')"
    by (rule Cons.IH[OF r(2) s'(1,2)])
  then show ?case
    using r(1,4) s'(3)
    by (simp add: option.map_comp comp_def addStock_addStock algebra_simps)
qed

text \<open>
  Claim C10. For a session that is found and owned by the caller, \<^verbatim>\<open>cancelSession\<close>
  answers with an error exactly when the session is completed; a cancelled session is
  cancelled again. Each of \<open>n\<close> successive cancellations adds the items' quantities to the
  products' stock once more, so after them every product's stock has grown by \<open>n\<close> times
  the quantity the session holds of it.
\<close>

theorem cancelSession_repeats_stock_restoration:
  assumes "findSession i d = Some s" "sess_owner s = u"
  shows "((\<exists>e. fst (cancelSession u i clock d) = Inl e) \<longleftrightarrow> status s = Completed)
       \<and> (status s \<noteq> Completed \<longrightarrow>
            findProduct a (run rt (map (\<lambda>c. (c, CancelSession u i)) cs) d) =
              map_option (addStock (of_nat (length cs) * of_int (itemsQuantity a (items s))))
                (findProduct a d))"
  using cancelSession_rejects_iff[OF assms] cancel_repeated[OF assms] by blast

theorem cancelSession_repeats_stock_restoration_witness:
  "status demo_session = Active
   \<and> findProduct 2 demo_db_open = Some (demo_product\<lparr>currentStock := 7\<rparr>)
   \<and> (\<exists>s'. findSession 10 (run demo_runtime [(500, CancelSession 7 10)] demo_db_open) = Some s'
           \<and> status s' = Cancelled)
   \<and> findProduct 2 (run demo_runtime [(500, CancelSession 7 10)] demo_db_open)
       = Some (demo_product\<lparr>currentStock := 10\<rparr>)
   \<and> findProduct 2 (run demo_runtime [(500, CancelSession 7 10), (600, CancelSession 7 10)] demo_db_open)
       = Some (demo_product\<lparr>currentStock := 13\<rparr>)
   \<and> (\<nexists>e. fst (cancelSession 7 10 600 (run demo_runtime [(500, CancelSession 7 10)] demo_db_open)) = Inl e)"
proof -
  have h1: "findSession 10 demo_db_open = Some demo_session"
    by (simp add: findSession_def demo_db_open_def demo_session_def newSession_def)
  have h2: "sess_owner demo_session = 7"
    by (simp add: demo_session_def newSession_def)
  have h3: "status demo_session = Active"
    by (simp add: demo_session_def newSession_def)
  have p: "findProduct 2 demo_db_open = Some (demo_product\<lparr>currentStock := 7\<rparr>)"
    by (simp add: findProduct_def demo_db_open_def demo_product_def)
  have q: "itemsQuantity 2 (items demo_session) = 3"
    by (simp add: itemsQuantity_def demo_session_def demo_item_def)
  from cancelSession_ok[OF h1 h2, of 500] h3 obtain s' d' where
    c: "cancelSession 7 10 500 demo_db_open = (Inr s', d')" "findSession 10 d' = Some s'"
       "status s' = Cancelled" "sess_owner s' = 7"
    using h2 by auto
  have r1: "run demo_runtime [(500, CancelSession 7 10)] demo_db_open = d'"
    using c(1) by simp
  have one: "findProduct 2 (run demo_runtime (map (\<lambda>c. (c, CancelSession 7 10)) [500]) demo_db_open)
       = Some (demo_product\<lparr>currentStock := 10\<rparr>)"
    using cancelSession_repeats_stock_restoration[OF h1 h2, of 0 2 demo_runtime "[500]"] h3
    by (simp add: p q addStock_def)
  have two: "findProduct 2 (run demo_runtime (map (\<lambda>c. (c, CancelSession 7 10)) [500, 600]) demo_db_open)
       = Some (demo_product\<lparr>currentStock := 13\<rparr>)"
    using cancelSession_repeats_stock_restoration[OF h1 h2, of 0 2 demo_runtime "[500, 600]"] h3
    by (simp add: p q addStock_def)
  have again: "\<nexists>e. fst (cancelSession 7 10 600 d') = Inl e"
    using cancelSession_repeats_stock_restoration[OF c(2) c(4), of 600 2 demo_runtime "[]"] c(3) by simp
  show ?thesis
    using h3 p one two again c(2,3) r1 by simp
qed

section \<open>Confirming payment and ending a session\<close>

lemma calculateGameCost_defined:
  "calculateGameCost clock s \<noteq> None \<longleftrightarrow> ratesDefined s"
  by (cases "pricingMethod s"; cases "minuteRate s"; cases "hourlyRate s";
      cases "frameRate s"; cases "kittiRate s";
      simp add: calculateGameCost_def ratesDefined_def numberOf_def Let_def)

lemma ratesDefined_cong:
  assumes "pricingMethod s' = pricingMethod s" "minuteRate s' = minuteRate s"
    "hourlyRate s' = hourlyRate s" "frameRate s' = frameRate s" "kittiRate s' = kittiRate s"
  shows "ratesDefined s' = ratesDefined s"
  using assms by (simp add: ratesDefined_def split: pricing_method.splits)

lemma updateTotalCost_ok:
  assumes "ratesDefined s"
  shows "\<exists>s1. updateTotalCost clock s = Inr s1 \<and> payment_derived s1
           \<and> payments s1 = payments s \<and> status s1 = status s \<and> sess_id s1 = sess_id s
           \<and> sess_owner s1 = sess_owner s \<and> sess_table s1 = sess_table s
           \<and> items s1 = items s \<and> ratesDefined s1 \<and> pausedAt s1 = pausedAt s
           \<and> endTime s1 = endTime s \<and> startTime s1 = startTime s
           \<and> totalPausedTime s1 = totalPausedTime s
           \<and> calculateCurrentCost clock s1 = Some (totalCost s1)"
proof -
  from assms obtain g where g: "calculateGameCost clock s = Some g"
    using calculateGameCost_defined[of clock s] by auto
  define s1 where "s1 = updatePaymentAmounts clock
     ((calculateItemsTotals s)\<lparr>gameCost := g,
        totalCost := g + totalItemsRevenue (calculateItemsTotals s)\<rparr>)"
  have r: "updateTotalCost clock s = Inr s1"
    using g by (simp add: updateTotalCost_def Let_def s1_def)
  have rd: "ratesDefined s1"
    using assms unfolding s1_def
    by (subst ratesDefined_cong[of _ s])
       (simp_all add: updatePaymentAmounts_def calculateItemsTotals_def Let_def)
  have g1: "calculateGameCost clock s1 = Some g"
    using g unfolding s1_def by simp
  have tc: "totalCost s1 = g + totalItemsRevenue s1"
    unfolding s1_def by (simp add: updatePaymentAmounts_fields updatePaymentAmounts_keeps)
  have fields: "payments s1 = payments s" "status s1 = status s" "sess_id s1 = sess_id s"
    "sess_owner s1 = sess_owner s" "sess_table s1 = sess_table s" "items s1 = items s"
    "pausedAt s1 = pausedAt s" "endTime s1 = endTime s" "startTime s1 = startTime s"
    "totalPausedTime s1 = totalPausedTime s"
    unfolding s1_def
    by (simp_all add: updatePaymentAmounts_def calculateItemsTotals_def Let_def)
  have pdv: "payment_derived s1"
    unfolding s1_def by (rule updatePaymentAmounts_derived)
  show ?thesis
    using r rd fields pdv g1 tc by (simp add: calculateCurrentCost_def)
qed

lemma markAsCredit_fields:
  "paymentStatus (markAsCredit c n s) = Credit"
  "payments (markAsCredit c n s) = payments s"
  "status (markAsCredit c n s) = status s"
  "sess_id (markAsCredit c n s) = sess_id s"
  "sess_owner (markAsCredit c n s) = sess_owner s"
  "sess_table (markAsCredit c n s) = sess_table s"
  "totalCost (markAsCredit c n s) = totalCost s"
  "totalPaidAmount (markAsCredit c n s) = totalPaidAmount s"
  by (simp_all add: markAsCredit_def)

lemma markAsCredit_ratesDefined: "ratesDefined (markAsCredit c n s) = ratesDefined s"
  by (rule ratesDefined_cong; simp add: markAsCredit_def)

lemma confirmPayment_credit:
  assumes "findSession i d = Some s" "sess_owner s = u"
    "status s = Active \<or> status s = Paused" "ratesDefined s"
  shows "\<exists>s2. confirmPayment u i ''credit'' m t n c d = (Inr s2, saveSession s2 d)
           \<and> paymentStatus s2 = Credit \<and> payments s2 = payments s
           \<and> totalPaidAmount s2 = foldl js_add 0 (map pay_amount (payments s))
           \<and> status s2 = status s \<and> sess_id s2 = i \<and> sess_owner s2 = u
           \<and> sess_table s2 = sess_table s \<and> ratesDefined s2"
proof -
  from updateTotalCost_ok[OF assms(4), of c] obtain s1 where
    s1: "updateTotalCost c s = Inr s1" "payment_derived s1" "payments s1 = payments s"
      "status s1 = status s" "sess_id s1 = sess_id s" "sess_owner s1 = sess_owner s"
      "sess_table s1 = sess_table s" "ratesDefined s1"
    by blast
  have tp: "totalPaidAmount s1 = foldl js_add 0 (map pay_amount (payments s))"
    using s1(2,3) by (simp add: payment_derived_def)
  show ?thesis
    using assms(1,2,3) s1 tp findSession_Some[OF assms(1)]
    by (auto simp: confirmPayment_def Let_def markAsCredit_fields markAsCredit_ratesDefined)
qed

lemma calculateCurrentCost_cong:
  assumes "status s' = status s" "endTime s' = endTime s" "startTime s' = startTime s"
    "totalPausedTime s' = totalPausedTime s" "pausedAt s' = pausedAt s"
    "pricingMethod s' = pricingMethod s" "minuteRate s' = minuteRate s"
    "hourlyRate s' = hourlyRate s" "frameRate s' = frameRate s" "kittiRate s' = kittiRate s"
    "frames s' = frames s" "kittis s' = kittis s"
    "totalItemsRevenue s' = totalItemsRevenue s"
  shows "calculateCurrentCost clock s' = calculateCurrentCost clock s"
  using assms calculateGameCost_cong[of s' s clock]
  by (simp add: calculateCurrentCost_def split: option.splits)

lemma recordPayment_ok:
  assumes "validMethods (pd_method pd) \<noteq> None" "0 \<le> pd_amount pd"
  shows "\<exists>s2. recordPayment c pd s1 = Inr s2
           \<and> payment_derived s2
           \<and> payments s2 = payments s1 @
                [\<lparr>pay_method = pd_method pd,
                  pay_methodLabel = (case validMethods (pd_method pd) of
                                       None \<Rightarrow> [] | Some l \<Rightarrow> l),
                  pay_amount = pd_amount pd, pay_transactionId = pd_transactionId pd,
                  pay_notes = pd_notes pd, pay_paidAt = c\<rparr>]
           \<and> totalCost s2 = totalCost s1
           \<and> status s2 = status s1 \<and> sess_id s2 = sess_id s1
           \<and> sess_owner s2 = sess_owner s1 \<and> sess_table s2 = sess_table s1
           \<and> ratesDefined s2 = ratesDefined s1
           \<and> calculateCurrentCost c s2 = calculateCurrentCost c s1"
proof -
  from assms(1) obtain l where l: "validMethods (pd_method pd) = Some l" by auto
  define sA where "sA = s1\<lparr>payments := payments s1 @
                        [\<lparr>pay_method = pd_method pd, pay_methodLabel = l,
                          pay_amount = pd_amount pd,
                          pay_transactionId = pd_transactionId pd,
                          pay_notes = pd_notes pd, pay_paidAt = c\<rparr>]\<rparr>"
  define sB where "sB = (if (case paymentMethod sA of None \<Rightarrow> True | Some m \<Rightarrow> m = [])
                        \<or> length (payments sA) = 1
                     then sA\<lparr>paymentMethod := Some (pd_method pd),
                             paymentMethodLabel := Some l\<rparr>
                     else sA)"
  define s2 where "s2 = updatePaymentAmounts c sB"
  have r: "recordPayment c pd s1 = Inr s2"
    using assms(2) by (simp add: recordPayment_def l Let_def sA_def sB_def s2_def)
  have rd: "ratesDefined s2 = ratesDefined s1"
    by (rule ratesDefined_cong;
        simp add: s2_def sB_def sA_def updatePaymentAmounts_def Let_def)
  have cc: "calculateCurrentCost c s2 = calculateCurrentCost c s1"
    by (rule calculateCurrentCost_cong;
        simp add: s2_def sB_def sA_def updatePaymentAmounts_def Let_def)
  have fields: "payments s2 = payments sA" "totalCost s2 = totalCost s1"
    "status s2 = status s1" "sess_id s2 = sess_id s1" "sess_owner s2 = sess_owner s1"
    "sess_table s2 = sess_table s1"
    by (simp_all add: s2_def sB_def sA_def updatePaymentAmounts_fields)
  have pdv: "payment_derived s2"
    unfolding s2_def by (rule updatePaymentAmounts_derived)
  show ?thesis
    using r rd cc fields pdv l by (simp add: sA_def)
qed

text \<open>
  \<^verbatim>\<open>markAsPaid\<close> records the difference between the total cost and the paid amount. When
  more has been paid than the session costs, the difference is negative and the save
  rejects it.
\<close>

lemma markAsPaid_ok:
  assumes "m = ''esewa'' \<or> m = ''online_banking'' \<or> m = ''cash''"
    and "payment_derived s1"
    and "0 \<le> js_sub (totalCost s1) (totalPaidAmount s1)"
  shows "\<exists>s2. markAsPaid c m t n s1 = Inr s2
           \<and> payment_derived s2
           \<and> totalPaidAmount s2 =
               js_add (totalPaidAmount s1) (js_sub (totalCost s1) (totalPaidAmount s1))
           \<and> totalCost s2 = totalCost s1
           \<and> status s2 = status s1 \<and> sess_id s2 = sess_id s1
           \<and> sess_owner s2 = sess_owner s1 \<and> sess_table s2 = sess_table s1
           \<and> ratesDefined s2 = ratesDefined s1
           \<and> calculateCurrentCost c s2 = calculateCurrentCost c s1"
proof -
  define pd where
    "pd = \<lparr>pd_method = m, pd_amount = js_sub (totalCost s1) (totalPaidAmount s1),
           pd_transactionId = t, pd_notes = n\<rparr>"
  have vm: "validMethods (pd_method pd) \<noteq> None"
    using assms(1) by (auto simp: validMethods_def pd_def)
  have am: "0 \<le> pd_amount pd"
    using assms(3) by (simp add: pd_def)
  have tp: "totalPaidAmount s1 = foldl js_add 0 (map pay_amount (payments s1))"
    using assms(2) by (simp add: payment_derived_def)
  from recordPayment_ok[OF vm am, of c s1] obtain s2 where
    s2: "recordPayment c pd s1 = Inr s2" "payment_derived s2"
      "map pay_amount (payments s2) = map pay_amount (payments s1) @ [pd_amount pd]"
      "totalCost s2 = totalCost s1" "status s2 = status s1" "sess_id s2 = sess_id s1"
      "sess_owner s2 = sess_owner s1" "sess_table s2 = sess_table s1"
      "ratesDefined s2 = ratesDefined s1"
      "calculateCurrentCost c s2 = calculateCurrentCost c s1"
    by auto
  have paid: "totalPaidAmount s2 =
                js_add (totalPaidAmount s1) (js_sub (totalCost s1) (totalPaidAmount s1))"
    using s2(2,3) tp by (simp add: payment_derived_def pd_def)
  have "markAsPaid c m t n s1 = Inr s2"
    using s2(1) by (simp add: markAsPaid_def pd_def)
  then show ?thesis
    using paid s2 by simp
qed

lemma markAsPaid_overpaid:
  assumes "js_sub (totalCost s1) (totalPaidAmount s1) < 0"
  shows "\<exists>e. markAsPaid c m t n s1 = Inl e"
  using assms by (simp add: markAsPaid_def recordPayment_def Let_def split: option.splits)

lemma confirmPayment_paid:
  assumes "findSession i d = Some s" "sess_owner s = u"
    "status s = Active \<or> status s = Paused" "ratesDefined s"
    "m = ''esewa'' \<or> m = ''online_banking'' \<or> m = ''cash''"
  shows "\<exists>s1. updateTotalCost c s = Inr s1
           \<and> (if js_sub (totalCost s1) (totalPaidAmount s1) < 0
               then confirmPayment u i ''paid'' m t n c d = (Inl ServerFault, saveSession s1 d)
               else (\<exists>s2. confirmPayment u i ''paid'' m t n c d = (Inr s2, saveSession s2 d)
                      \<and> payment_derived s2
                      \<and> calculateCurrentCost c s2 = Some (totalCost s2)
                      \<and> totalPaidAmount s2 =
                          js_add (totalPaidAmount s1)
                            (js_sub (totalCost s1) (totalPaidAmount s1))
                      \<and> totalCost s2 = totalCost s1
                      \<and> status s2 = status s \<and> sess_id s2 = i \<and> sess_owner s2 = u
                      \<and> sess_table s2 = sess_table s \<and> ratesDefined s2))"
proof -
  from updateTotalCost_ok[OF assms(4), of c] obtain s1 where
    s1: "updateTotalCost c s = Inr s1" "payment_derived s1" "payments s1 = payments s"
      "status s1 = status s" "sess_id s1 = sess_id s" "sess_owner s1 = sess_owner s"
      "sess_table s1 = sess_table s" "ratesDefined s1"
      "calculateCurrentCost c s1 = Some (totalCost s1)"
    by blast
  show ?thesis
  proof (cases "js_sub (totalCost s1) (totalPaidAmount s1) < 0")
    case True
    from markAsPaid_overpaid[OF True, of c m t n] obtain e where
      "markAsPaid c m t n s1 = Inl e" by blast
    then have "confirmPayment u i ''paid'' m t n c d = (Inl ServerFault, saveSession s1 d)"
      using assms(1,2,3,5) s1(1) by (auto simp: confirmPayment_def)
    then show ?thesis
      using s1(1) True by simp
  next
    case False
    then have nn: "0 \<le> js_sub (totalCost s1) (totalPaidAmount s1)" by simp
    from markAsPaid_ok[OF assms(5) s1(2) nn, of c t n] obtain s2 where
      s2: "markAsPaid c m t n s1 = Inr s2" "payment_derived s2"
        "totalPaidAmount s2 =
           js_add (totalPaidAmount s1) (js_sub (totalCost s1) (totalPaidAmount s1))"
        "totalCost s2 = totalCost s1"
        "status s2 = status s1" "sess_id s2 = sess_id s1" "sess_owner s2 = sess_owner s1"
        "sess_table s2 = sess_table s1" "ratesDefined s2 = ratesDefined s1"
        "calculateCurrentCost c s2 = calculateCurrentCost c s1"
      by blast
    have "confirmPayment u i ''paid'' m t n c d = (Inr s2, saveSession s2 d)"
      using assms(1,2,3,5) s1(1) s2(1) by (auto simp: confirmPayment_def)
    then show ?thesis
      using s1 s2 False assms(2) findSession_Some[OF assms(1)] by simp
  qed
qed

lemma endSession_pending:
  assumes "findSession i d = Some s" "sess_owner s = u"
    "status s = Active \<or> status s = Paused" "paymentStatus s = Pending"
  shows "endSession u i n c d =
           (Inl (RequiresPaymentConfirmation (calculateCurrentCost c s)), d)"
  using assms by (auto simp: endSession_def)

lemma endSession_ok:
  assumes "findSession i d = Some s" "sess_owner s = u"
    "status s = Active \<or> status s = Paused" "paymentStatus s \<noteq> Pending" "ratesDefined s"
  shows "\<exists>s5. endSession u i n c d = (Inr s5, freeTable (sess_table s) (saveSession s5 d))
           \<and> findSession i (freeTable (sess_table s) (saveSession s5 d)) = Some s5
           \<and> status s5 = Completed \<and> endTime s5 = Some c \<and> pausedAt s5 = None
           \<and> startTime s5 = startTime s
           \<and> totalPausedTime s5 =
               totalPausedTime s + (case pausedAt s of None \<Rightarrow> 0 | Some p \<Rightarrow> c - p)
           \<and> payment_derived s5 \<and> payments s5 = payments s"
proof -
  define s3 where "s3 = (if n \<noteq> [] then s\<lparr>status := Completed, endTime := Some c,
                             sess_notes := n\<rparr>
                         else s\<lparr>status := Completed, endTime := Some c\<rparr>)
                        \<lparr>lastModifiedAt := c\<rparr>"
  define s4 where "s4 = (case pausedAt s3 of
                            None \<Rightarrow> s3
                          | Some p \<Rightarrow>
                              s3\<lparr>totalPausedTime := totalPausedTime s3 + (c - p),
                                  pausedAt := None\<rparr>)"
  have r3: "ratesDefined s3"
    using assms(5) by (subst ratesDefined_cong[of _ s]) (simp_all add: s3_def)
  have f3: "pausedAt s3 = pausedAt s" "status s3 = Completed" "endTime s3 = Some c"
    "startTime s3 = startTime s" "totalPausedTime s3 = totalPausedTime s"
    "payments s3 = payments s" "sess_id s3 = sess_id s" "sess_table s3 = sess_table s"
    by (simp_all add: s3_def)
  have r4: "ratesDefined s4"
    using r3 by (subst ratesDefined_cong[of _ s3]) (simp_all add: s4_def split: option.splits)
  have f4: "pausedAt s4 = None" "status s4 = Completed" "endTime s4 = Some c"
    "startTime s4 = startTime s"
    "totalPausedTime s4 =
       totalPausedTime s + (case pausedAt s of None \<Rightarrow> 0 | Some p \<Rightarrow> c - p)"
    "payments s4 = payments s" "sess_id s4 = sess_id s" "sess_table s4 = sess_table s"
    using f3 by (simp_all add: s4_def split: option.splits)
  from updateTotalCost_ok[OF r4, of c] obtain s5 where
    s5: "updateTotalCost c s4 = Inr s5" "payment_derived s5" "payments s5 = payments s4"
      "status s5 = status s4" "sess_id s5 = sess_id s4" "sess_table s5 = sess_table s4"
      "pausedAt s5 = pausedAt s4" "endTime s5 = endTime s4" "startTime s5 = startTime s4"
      "totalPausedTime s5 = totalPausedTime s4"
    by blast
  have "endSession u i n c d =
          (case updateTotalCost c s4 of
             Inl e \<Rightarrow> (Inl ServerFault, d)
           | Inr s5 \<Rightarrow> (Inr s5, freeTable (sess_table s5) (saveSession s5 d)))"
    using assms(1-4)
    by (cases "pausedAt s") (auto simp: endSession_def Let_def s3_def s4_def)
  then have "endSession u i n c d = (Inr s5, freeTable (sess_table s) (saveSession s5 d))"
    using s5(1,6) f4(8) by simp
  moreover have "findSession i (freeTable (sess_table s) (saveSession s5 d)) = Some s5"
    using assms(1) findSession_Some[OF assms(1)] s5(5) f4(7)
    by (simp add: findSession_saveSession)
  ultimately show ?thesis
    using s5 f4 by simp
qed

text \<open>
  Claim C9. A session that is found, owned and open, has an empty payments list and defined
  rates is marked as credit by \<^verbatim>\<open>confirmPayment\<close> with status \<open>credit\<close>; ending it then
  succeeds, and the session that \<^verbatim>\<open>endSession\<close> stores and returns is completed with
  payment status pending: the recomputation inside \<^verbatim>\<open>endSession\<close> derives the status
  from the paid amount 0.
\<close>

theorem credit_without_payment_ends_as_pending:
  assumes "findSession i d = Some s" "sess_owner s = u"
    "status s = Active \<or> status s = Paused" "payments s = []" "ratesDefined s"
  shows "\<exists>s1 d1 s2 d2.
           confirmPayment u i ''credit'' m t n c1 d = (Inr s1, d1)
           \<and> findSession i d1 = Some s1
           \<and> paymentStatus s1 = Credit \<and> totalPaidAmount s1 = 0 \<and> payments s1 = []
           \<and> endSession u i n' c2 d1 = (Inr s2, d2)
           \<and> findSession i d2 = Some s2
           \<and> status s2 = Completed \<and> paymentStatus s2 = Pending"
proof -
  from confirmPayment_credit[OF assms(1,2,3,5), of m t n c1] obtain s1 where
    s1: "confirmPayment u i ''credit'' m t n c1 d = (Inr s1, saveSession s1 d)"
      "paymentStatus s1 = Credit" "payments s1 = payments s"
      "totalPaidAmount s1 = foldl js_add 0 (map pay_amount (payments s))"
      "status s1 = status s" "sess_id s1 = i" "sess_owner s1 = u" "ratesDefined s1"
    by blast
  have f1: "findSession i (saveSession s1 d) = Some s1"
    using assms(1) s1(6) by (simp add: findSession_saveSession)
  have open1: "status s1 = Active \<or> status s1 = Paused"
    using assms(3) s1(5) by simp
  have np: "paymentStatus s1 \<noteq> Pending"
    using s1(2) by simp
  from endSession_ok[OF f1 s1(7) open1 np s1(8), of n' c2] obtain s2 where
    s2: "endSession u i n' c2 (saveSession s1 d)
           = (Inr s2, freeTable (sess_table s1) (saveSession s2 (saveSession s1 d)))"
      "findSession i (freeTable (sess_table s1) (saveSession s2 (saveSession s1 d))) = Some s2"
      "status s2 = Completed" "payment_derived s2" "payments s2 = payments s1"
    by blast
  have "paymentStatus s2 = Pending"
    using s2(4,5) s1(3) assms(4) by (simp add: payment_derived_def)
  then show ?thesis
    using s1 f1 s2 assms(4) by simp
qed

lemma demo_started:
  "snd (startSession 7 3 1000 demo_db) =
     \<lparr>tables = [demo_table\<lparr>isOccupied := True, currentBooking := Some 10\<rparr>],
      sessions = [newSession 1000 10 7 demo_table],
      products = [demo_product], nextId = 11\<rparr>"
  by (simp add: startSession_def findTable_def getActiveSession_def demo_db_def
        demo_table_def saveTable_def Let_def newSession_def)

lemma demo_started_session:
  "findSession 10 (snd (startSession 7 3 1000 demo_db)) = Some (newSession 1000 10 7 demo_table)"
  by (simp add: demo_started findSession_def newSession_def)

theorem credit_without_payment_ends_as_pending_witness:
  "\<exists>s1 d1 s2 d2.
      confirmPayment 7 10 ''credit'' [] [] [] 2000 (snd (startSession 7 3 1000 demo_db))
        = (Inr s1, d1)
    \<and> paymentStatus s1 = Credit \<and> totalPaidAmount s1 = 0
    \<and> endSession 7 10 [] 3000 d1 = (Inr s2, d2)
    \<and> findSession 10 d2 = Some s2
    \<and> status s2 = Completed \<and> paymentStatus s2 = Pending"
proof -
  have h2: "sess_owner (newSession 1000 10 7 demo_table) = 7"
    by (simp add: newSession_def)
  have h3: "status (newSession 1000 10 7 demo_table) = Active
            \<or> status (newSession 1000 10 7 demo_table) = Paused"
    by (simp add: newSession_def)
  have h4: "payments (newSession 1000 10 7 demo_table) = []"
    by (simp add: newSession_def)
  have h5: "ratesDefined (newSession 1000 10 7 demo_table)"
    by (simp add: newSession_def ratesDefined_def demo_table_def)
  from credit_without_payment_ends_as_pending[OF demo_started_session h2 h3 h4 h5,
      of "[]" "[]" "[]" 2000 "[]" 3000]
  show ?thesis by blast
qed

text \<open>
  What \<^verbatim>\<open>endSession\<close> does after a successful confirmation with status \<open>paid\<close>: it
  succeeds exactly when the paid amount that the confirmation stored is not zero.
\<close>

lemma confirmPayment_paid_then_endSession:
  assumes "findSession i d = Some s" "sess_owner s = u"
    "status s = Active \<or> status s = Paused" "ratesDefined s"
    "m = ''esewa'' \<or> m = ''online_banking'' \<or> m = ''cash''"
    "confirmPayment u i ''paid'' m t n c1 d = (Inr s1, d1)"
  shows "if totalPaidAmount s1 = 0
         then endSession u i n' c2 d1 =
                (Inl (RequiresPaymentConfirmation (calculateCurrentCost c2 s1)), d1)
         else (\<exists>s2 d2. endSession u i n' c2 d1 = (Inr s2, d2)
                 \<and> findSession i d2 = Some s2 \<and> status s2 = Completed)"
proof -
  from confirmPayment_paid[OF assms(1-5), of c1 t n] assms(6) have
    s1: "d1 = saveSession s1 d" "payment_derived s1"
      "status s1 = status s" "sess_id s1 = i" "sess_owner s1 = u" "ratesDefined s1"
    by (auto split: if_splits)
  have f1: "findSession i d1 = Some s1"
    using assms(1) s1(1,4) by (simp add: findSession_saveSession)
  have open1: "status s1 = Active \<or> status s1 = Paused"
    using assms(3) s1(3) by simp
  show ?thesis
  proof (cases "totalPaidAmount s1 = 0")
    case True
    then have "paymentStatus s1 = Pending"
      using s1(2) by (simp add: payment_derived_def)
    from endSession_pending[OF f1 s1(5) open1 this, of n' c2] True
    show ?thesis by simp
  next
    case False
    then have "paymentStatus s1 \<noteq> Pending"
      using s1(2) by (simp add: payment_derived_def)
    from endSession_ok[OF f1 s1(5) open1 this s1(6), of n' c2] False
    show ?thesis by auto
  qed
qed

text \<open>
  Claim C4, at a session whose cost is zero (confirmed within its first minute, no items).
  \<^verbatim>\<open>confirmPayment\<close> with status \<open>paid\<close> succeeds, but the payment it records has
  amount 0, the derived status stays pending, and \<^verbatim>\<open>endSession\<close> still answers that
  payment confirmation is required, leaving the store as it was.
\<close>

theorem zero_cost_session_paid_but_not_endable:
  "\<exists>s2 d2.
      confirmPayment 7 10 ''paid'' ''cash'' [] [] 2000 (snd (startSession 7 3 1000 demo_db))
        = (Inr s2, d2)
    \<and> findSession 10 d2 = Some s2
    \<and> map pay_amount (payments s2) = [0] \<and> totalCost s2 = 0
    \<and> status s2 = Active \<and> paymentStatus s2 = Pending
    \<and> endSession 7 10 [] 3000 d2 = (Inl (RequiresPaymentConfirmation (Some 0)), d2)"
proof -
  let ?s = "newSession 1000 10 7 demo_table"
  let ?d = "snd (startSession 7 3 1000 demo_db)"
  have u: "updateTotalCost 2000 ?s = Inr ?s"
    by (simp add: updateTotalCost_def calculateItemsTotals_def calculateGameCost_def
          getDurationInMinutes_def updatePaymentAmounts_def newSession_def demo_table_def
          numberOf_def js_sub_self Let_def)
  define s2 where "s2 = ?s\<lparr>paymentMethod := Some ''cash'', paymentMethodLabel := Some ''Cash'',
      payments := [\<lparr>pay_method = ''cash'', pay_methodLabel = ''Cash'', pay_amount = 0,
                    pay_transactionId = [], pay_notes = [], pay_paidAt = 2000\<rparr>]\<rparr>"
  have m: "markAsPaid 2000 ''cash'' [] [] ?s = Inr s2"
    by (simp add: markAsPaid_def recordPayment_def validMethods_def updatePaymentAmounts_def
          newSession_def js_sub_self js_add_zero Let_def s2_def)
  have o: "sess_owner ?s = 7" "status ?s = Active"
    by (simp_all add: newSession_def)
  have c: "confirmPayment 7 10 ''paid'' ''cash'' [] [] 2000 ?d = (Inr s2, saveSession s2 ?d)"
    by (simp add: confirmPayment_def demo_started_session u m o)
  have f: "findSession 10 (saveSession s2 ?d) = Some s2"
    by (simp add: findSession_saveSession demo_started_session s2_def newSession_def)
  have cost: "calculateCurrentCost 3000 s2 = Some 0"
    by (simp add: calculateCurrentCost_def calculateGameCost_def getDurationInMinutes_def
          s2_def newSession_def demo_table_def numberOf_def Let_def)
  have e: "endSession 7 10 [] 3000 (saveSession s2 ?d)
             = (Inl (RequiresPaymentConfirmation (calculateCurrentCost 3000 s2)),
                saveSession s2 ?d)"
    by (rule endSession_pending[OF f]) (simp_all add: s2_def newSession_def)
  show ?thesis
    apply (rule exI[of _ s2], rule exI[of _ "saveSession s2 ?d"])
    using c f e cost by (simp add: s2_def newSession_def)
qed

section \<open>The per-minute rate of a started session\<close>

lemma js_sub_160: "js_sub 160 0 = 160"
  by code_simp

lemma startSession_per_minute_rate:
  assumes "startSession u tableId c d = (Inr s, d')" "findTable tableId d = Some t"
    "tbl_pricingMethod t = PerMinute" "tbl_hourlyRate t = Number r"
  shows "minuteRate s = Number r
         \<and> calculateGameCost clock s = Some (r * of_int (getDurationInMinutes clock s))"
proof -
  have s: "s = newSession c (nextId d) u t"
    using assms(1,2)
    by (auto simp: startSession_def Let_def split: if_splits option.splits)
  have "minuteRate s = Number r" "pricingMethod s = PerMinute"
    using assms(3,4) by (simp_all add: s newSession_def)
  then show ?thesis
    by (simp add: calculateGameCost_def numberOf_def Let_def)
qed

text \<open>
  Claim C1, evaluated. A per-minute table whose stored rate is 100 per hour; a session is
  started and two units of a product selling at 80 are added; thirty minutes after the
  start the game cost is 3000 (the hourly rate charged for every minute, since
  \<^verbatim>\<open>startSession\<close> stores the table's hourly rate as the session's minute rate) and
  \<^verbatim>\<open>calculateCurrentCost\<close> is 3160, not about 210.
\<close>

theorem per_minute_session_charges_hourly_rate_each_minute:
  "\<exists>s. findSession 10 (run demo_runtime [(1000, StartSession 7 3), (1000, AddItem 7 10 2 2)] demo_db)
          = Some s
      \<and> tbl_hourlyRate demo_table = Number 100
      \<and> minuteRate s = Number 100
      \<and> map item_quantity (items s) = [2] \<and> map item_sellingPrice (items s) = [80]
      \<and> getDurationInMinutes (1000 + 30 * 60000) s = 30
      \<and> calculateGameCost (1000 + 30 * 60000) s = Some 3000
      \<and> calculateCurrentCost (1000 + 30 * 60000) s = Some 3160"
proof -
  let ?s0 = "newSession 1000 10 7 demo_table"
  define s1 where "s1 = ?s0\<lparr>items :=
        [\<lparr>item_id = 11, item_product = 2, item_productName = ''cola'', item_quantity = 2,
          item_costPrice = 50, item_sellingPrice = 80, item_totalCost = 100,
          item_totalRevenue = 160, item_profit = 60, item_addedAt = 1000\<rparr>],
        totalItems := 2, totalItemsCost := 100, totalItemsRevenue := 160,
        totalItemsProfit := 60, totalCost := 160, remainingAmount := 160\<rparr>"
  have a: "addItem 1000 11
             \<lparr>id_product = 2, id_productName = ''cola'', id_quantity = 2,
              id_costPrice = 50, id_sellingPrice = 80\<rparr> ?s0 = Inr s1"
    by (simp add: addItem_def calculateItemsTotals_def calculateGameCost_def
          getDurationInMinutes_def updatePaymentAmounts_def newSession_def demo_table_def
          numberOf_def js_sub_160 Let_def s1_def)
  let ?d1 = "snd (startSession 7 3 1000 demo_db)"
  note f = demo_started_session
  have p: "findProduct 2 ?d1 = Some demo_product"
    by (simp add: demo_started findProduct_def demo_product_def)
  have o: "sess_owner ?s0 = 7" "status ?s0 = Active" "sess_id ?s0 = 10"
    by (simp_all add: newSession_def)
  have pr: "prod_owner demo_product = 7" "currentStock demo_product = 10"
    "prod_id demo_product = 2" "prod_name demo_product = ''cola''"
    "prod_costPrice demo_product = 50" "prod_sellingPrice demo_product = 80"
    by (simp_all add: demo_product_def)
  have n: "nextId ?d1 = 11"
    by (simp add: demo_started)
  have "findSession 10 (snd (addItemToSession 7 10 2 2 1000 ?d1)) = Some s1"
    by (simp add: addItemToSession_def f p o pr n a findSession_saveSession
          findSession_def[of _ "_\<lparr>nextId := _\<rparr>"])
       (simp add: s1_def newSession_def demo_started findSession_def)
  then have r: "findSession 10 (run demo_runtime [(1000, StartSession 7 3), (1000, AddItem 7 10 2 2)] demo_db)
          = Some s1"
    by simp
  have v: "getDurationInMinutes (1000 + 30 * 60000) s1 = 30"
    "calculateGameCost (1000 + 30 * 60000) s1 = Some 3000"
    "calculateCurrentCost (1000 + 30 * 60000) s1 = Some 3160"
    by (simp_all add: calculateCurrentCost_def calculateGameCost_def getDurationInMinutes_def
          s1_def newSession_def demo_table_def numberOf_def Let_def)
  show ?thesis
    apply (rule exI[of _ s1])
    using r v by (simp add: s1_def newSession_def demo_table_def)
qed

section \<open>How the handlers change the sessions collection\<close>

lemma evolves_refl: "evolves c s s"
  by (simp add: evolves_def list_all_iff)

lemma updateTotalCost_evolves:
  assumes "updateTotalCost c s = Inr s'"
  shows "sess_id s' = sess_id s" "sess_table s' = sess_table s" "status s' = status s"
    "endTime s' = endTime s" "items s' = items s"
  using assms
  by (auto simp: updateTotalCost_def updatePaymentAmounts_def calculateItemsTotals_def Let_def
        split: option.splits if_splits)

lemma recordPayment_evolves:
  assumes "recordPayment c pd s = Inr s'"
  shows "sess_id s' = sess_id s" "sess_table s' = sess_table s" "status s' = status s"
    "endTime s' = endTime s" "items s' = items s"
  using assms
  by (auto simp: recordPayment_def updatePaymentAmounts_def Let_def
        split: option.splits if_splits)

lemma addItem_evolves:
  assumes "addItem c k itd s = Inr s'"
  shows "sess_id s' = sess_id s" "sess_table s' = sess_table s" "status s' = status s"
    "endTime s' = endTime s"
    "\<exists>it. items s' = items s @ [it] \<and> item_quantity it = id_quantity itd"
  using assms
  by (auto simp: addItem_def updatePaymentAmounts_def calculateItemsTotals_def Let_def
        split: option.splits if_splits)

lemma removeItem_evolves:
  assumes "removeItem c k s = Inr s'"
  shows "sess_id s' = sess_id s" "sess_table s' = sess_table s" "status s' = status s"
    "endTime s' = endTime s" "items s' = filter (\<lambda>item. item_id item \<noteq> k) (items s)"
  using assms
  by (auto simp: removeItem_def updatePaymentAmounts_def calculateItemsTotals_def Let_def
        split: option.splits if_splits)

lemma startSession_change: "sessionsChange c d (snd (startSession u tableId c d))"
proof (cases "findTable tableId d")
  case None
  then show ?thesis by (simp add: startSession_def sessionsChange.unchanged)
next
  case (Some t)
  then have tid: "tbl_id t = tableId" by (simp add: findTable_Some)
  show ?thesis
  proof (cases "tbl_owner t \<noteq> u \<or> tbl_status t \<noteq> TableActive \<or> isOccupied t
                \<or> getActiveSession tableId d \<noteq> None")
    case True
    then show ?thesis
      using Some by (auto simp: startSession_def sessionsChange.unchanged)
  next
    case False
    let ?s = "newSession c (nextId d) u t"
    have d': "snd (startSession u tableId c d) =
                saveTable (t\<lparr>isOccupied := True, currentBooking := Some (sess_id ?s)\<rparr>)
                  (d\<lparr>sessions := sessions d @ [?s], nextId := Suc (nextId d)\<rparr>)"
      using Some False by (auto simp: startSession_def Let_def)
    show ?thesis
      unfolding d'
      by (rule sessionsChange.started[where s'="?s"])
         (use False tid in \<open>simp_all add: newSession_def\<close>)
  qed
qed

lemma pauseSession_change: "sessionsChange c d (snd (pauseSession u i c d))"
proof (cases "findSession i d")
  case None
  then show ?thesis by (simp add: pauseSession_def sessionsChange.unchanged)
next
  case (Some s)
  then have sid: "sess_id s = i" by (simp add: findSession_Some)
  show ?thesis
  proof (cases "sess_owner s \<noteq> u \<or> status s \<noteq> Active")
    case True
    then show ?thesis
      using Some by (auto simp: pauseSession_def sessionsChange.unchanged)
  next
    case False
    let ?s' = "s\<lparr>status := Paused, pausedAt := Some c, lastModifiedAt := c\<rparr>"
    have d': "snd (pauseSession u i c d) = saveSession ?s' d"
      using Some False by (auto simp: pauseSession_def Let_def)
    show ?thesis
      unfolding d'
      by (rule sessionsChange.saved[where s'="?s'" and s=s])
         (use False Some sid in \<open>simp_all add: evolves_def isOpen_def list_all_iff\<close>)
  qed
qed

lemma resumeSession_change: "sessionsChange c d (snd (resumeSession u i c d))"
proof (cases "findSession i d")
  case None
  then show ?thesis by (simp add: resumeSession_def sessionsChange.unchanged)
next
  case (Some s)
  then have sid: "sess_id s = i" by (simp add: findSession_Some)
  show ?thesis
  proof (cases "sess_owner s \<noteq> u \<or> status s \<noteq> Paused")
    case True
    then show ?thesis
      using Some by (auto simp: resumeSession_def sessionsChange.unchanged)
  next
    case False
    obtain s' where d': "snd (resumeSession u i c d) = saveSession s' d"
      and s': "sess_id s' = sess_id s" "sess_table s' = sess_table s" "status s' = Active"
        "endTime s' = endTime s" "items s' = items s"
      using Some False
      by (cases "pausedAt s") (auto simp: resumeSession_def Let_def)
    show ?thesis
      unfolding d'
      by (rule sessionsChange.saved[where s'="s'" and s=s])
         (use False Some sid s' in \<open>simp_all add: evolves_def isOpen_def list_all_iff\<close>)
  qed
qed

lemma addItemToSession_change:
  "sessionsChange c d (snd (addItemToSession u i pid q c d))"
proof (cases "findSession i d")
  case None
  then show ?thesis by (simp add: addItemToSession_def sessionsChange.unchanged)
next
  case (Some s)
  then have sid: "sess_id s = i" by (simp add: findSession_Some)
  show ?thesis
  proof (cases "findProduct pid d")
    case None
    then show ?thesis
      using Some by (simp add: addItemToSession_def sessionsChange.unchanged)
  next
    case p: (Some p)
    let ?itd = "\<lparr>id_product = prod_id p, id_productName = prod_name p, id_quantity = q,
                 id_costPrice = prod_costPrice p, id_sellingPrice = prod_sellingPrice p\<rparr>"
    show ?thesis
    proof (cases "q < 1 \<or> sess_owner s \<noteq> u \<or> \<not> (status s = Active \<or> status s = Paused)
                  \<or> prod_owner p \<noteq> u \<or> currentStock p < of_int q")
      case True
      then show ?thesis
        using Some p by (auto simp: addItemToSession_def sessionsChange.unchanged)
    next
      case False
      show ?thesis
      proof (cases "addItem c (nextId d) ?itd s")
        case (Inl e)
        then show ?thesis
          using Some p False by (auto simp: addItemToSession_def sessionsChange.unchanged)
      next
        case (Inr s')
        have d': "snd (addItemToSession u i pid q c d) =
                    saveProduct (updateStock (of_int q) ''subtract'' p)
                      (saveSession s' (d\<lparr>nextId := Suc (nextId d)\<rparr>))"
          using Some p False Inr by (auto simp: addItemToSession_def)
        from addItem_evolves[OF Inr] obtain it where
          s': "sess_id s' = sess_id s" "sess_table s' = sess_table s" "status s' = status s"
            "endTime s' = endTime s" "items s' = items s @ [it]" "item_quantity it = q"
          by auto
        have ev: "evolves c s s'"
          using s' False by (auto simp: evolves_def isOpen_def list_all_iff)
        show ?thesis
          unfolding d'
          by (rule sessionsChange.saved[where s'="s'" and s=s])
             (use Some sid s' ev in \<open>simp_all add: saveSession_def\<close>)
      qed
    qed
  qed
qed

lemma removeItemFromSession_change:
  "sessionsChange c d (snd (removeItemFromSession u i k c d))"
proof (cases "findSession i d")
  case None
  then show ?thesis by (simp add: removeItemFromSession_def sessionsChange.unchanged)
next
  case (Some s)
  then have sid: "sess_id s = i" by (simp add: findSession_Some)
  show ?thesis
  proof (cases "find (\<lambda>item. item_id item = k) (items s)")
    case None
    then show ?thesis
      using Some by (simp add: removeItemFromSession_def sessionsChange.unchanged)
  next
    case it: (Some item)
    define d1 where "d1 = (case findProduct (item_product item) d of
                                 None \<Rightarrow> d
                               | Some p \<Rightarrow>
                                   saveProduct
                                     (updateStock (of_int (item_quantity item)) ''add'' p) d)"
    have d1: "sessions d1 = sessions d" "nextId d1 = nextId d"
      by (simp_all add: d1_def split: option.splits)
    show ?thesis
    proof (cases "sess_owner s \<noteq> u \<or> \<not> (status s = Active \<or> status s = Paused)")
      case True
      then show ?thesis
        using Some by (auto simp: removeItemFromSession_def sessionsChange.unchanged)
    next
      case False
      show ?thesis
      proof (cases "removeItem c k s")
        case (Inl e)
        then have "snd (removeItemFromSession u i k c d) = d1"
          using Some it False by (auto simp: removeItemFromSession_def d1_def)
        then show ?thesis
          using d1 by (simp add: sessionsChange.unchanged)
      next
        case (Inr s')
        have d': "snd (removeItemFromSession u i k c d) = saveSession s' d1"
          using Some it False Inr by (auto simp: removeItemFromSession_def d1_def)
        note s' = removeItem_evolves[OF Inr]
        have ev: "evolves c s s'"
          using s' by (auto simp: evolves_def isOpen_def list_all_iff)
        show ?thesis
          unfolding d'
          by (rule sessionsChange.saved[where s'="s'" and s=s])
             (use Some sid s' ev d1 in \<open>simp_all add: saveSession_def\<close>)
      qed
    qed
  qed
qed

lemma markAsPaid_evolves:
  assumes "markAsPaid c m t n s = Inr s'"
  shows "sess_id s' = sess_id s" "sess_table s' = sess_table s" "status s' = status s"
    "endTime s' = endTime s" "items s' = items s"
  using assms unfolding markAsPaid_def by (rule recordPayment_evolves)+

lemma confirmPayment_change:
  "sessionsChange c d (snd (confirmPayment u i st m t n c d))"
proof (cases "findSession i d")
  case None
  then show ?thesis by (simp add: confirmPayment_def sessionsChange.unchanged)
next
  case (Some s)
  then have sid: "sess_id s = i" by (simp add: findSession_Some)
  show ?thesis
  proof (cases "updateTotalCost c s")
    case (Inl e)
    then show ?thesis
      using Some by (simp add: confirmPayment_def sessionsChange.unchanged)
  next
    case (Inr s1)
    note s1 = updateTotalCost_evolves[OF Inr]
    have ev1: "evolves c s s1"
      using s1 by (auto simp: evolves_def isOpen_def list_all_iff)
    have saved1: "sessionsChange c d (saveSession s1 d)"
      by (rule sessionsChange.saved[where s'="s1" and s=s])
         (use Some sid s1 ev1 in simp_all)
    have saved2: "sessionsChange c d (saveSession s2 d)"
      if "markAsPaid c m t n s1 = Inr s2" for s2
    proof -
      note s2 = markAsPaid_evolves[OF that]
      have "evolves c s s2"
        using s1 s2 by (auto simp: evolves_def isOpen_def list_all_iff)
      then show ?thesis
        by (intro sessionsChange.saved[where s'="s2" and s=s])
           (use Some sid s1 s2 in simp_all)
    qed
    have saved3: "sessionsChange c d (saveSession (markAsCredit c n' s1) d)" for n'
    proof -
      have "evolves c s (markAsCredit c n' s1)"
        using s1 by (auto simp: evolves_def isOpen_def list_all_iff markAsCredit_def)
      then show ?thesis
        by (intro sessionsChange.saved[where s'="markAsCredit c n' s1" and s=s])
           (use Some sid s1 in \<open>simp_all add: markAsCredit_def\<close>)
    qed
    show ?thesis
      using Some Inr saved1 saved2 saved3
      by (auto simp: confirmPayment_def Let_def sessionsChange.unchanged split: sum.splits)
  qed
qed

lemma endSession_change: "sessionsChange c d (snd (endSession u i n c d))"
proof (cases "findSession i d")
  case None
  then show ?thesis by (simp add: endSession_def sessionsChange.unchanged)
next
  case (Some s)
  then have sid: "sess_id s = i" by (simp add: findSession_Some)
  define s3 where "s3 = (if n \<noteq> [] then s\<lparr>status := Completed, endTime := Some c,
                             sess_notes := n\<rparr>
                         else s\<lparr>status := Completed, endTime := Some c\<rparr>)
                        \<lparr>lastModifiedAt := c\<rparr>"
  define s4 where "s4 = (case pausedAt s3 of
                            None \<Rightarrow> s3
                          | Some p \<Rightarrow>
                              s3\<lparr>totalPausedTime := totalPausedTime s3 + (c - p),
                                  pausedAt := None\<rparr>)"
  have f4: "sess_id s4 = sess_id s" "sess_table s4 = sess_table s" "status s4 = Completed"
    "endTime s4 = Some c" "items s4 = items s"
    by (simp_all add: s4_def s3_def split: option.splits)
  show ?thesis
  proof (cases "sess_owner s \<noteq> u \<or> \<not> (status s = Active \<or> status s = Paused)
                \<or> paymentStatus s = Pending")
    case True
    then show ?thesis
      using Some by (auto simp: endSession_def sessionsChange.unchanged)
  next
    case False
    have e: "endSession u i n c d =
          (case updateTotalCost c s4 of
             Inl e \<Rightarrow> (Inl ServerFault, d)
           | Inr s5 \<Rightarrow> (Inr s5, freeTable (sess_table s5) (saveSession s5 d)))"
      using Some False
      by (cases "pausedAt s") (auto simp: endSession_def Let_def s3_def s4_def)
    show ?thesis
    proof (cases "updateTotalCost c s4")
      case (Inl e')
      then show ?thesis using e by (simp add: sessionsChange.unchanged)
    next
      case (Inr s5)
      note s5 = updateTotalCost_evolves[OF Inr]
      have ev: "evolves c s s5"
        using s5 f4 by (auto simp: evolves_def isOpen_def list_all_iff)
      have d': "snd (endSession u i n c d) = freeTable (sess_table s5) (saveSession s5 d)"
        using e Inr by simp
      show ?thesis
        unfolding d'
        by (rule sessionsChange.saved[where s'="s5" and s=s])
           (use Some sid s5 f4 ev in simp_all)
    qed
  qed
qed

lemma cancelSession_change: "sessionsChange c d (snd (cancelSession u i c d))"
proof (cases "findSession i d")
  case None
  then show ?thesis by (simp add: cancelSession_def sessionsChange.unchanged)
next
  case (Some s)
  then have sid: "sess_id s = i" by (simp add: findSession_Some)
  show ?thesis
  proof (cases "sess_owner s \<noteq> u \<or> status s = Completed")
    case True
    then show ?thesis
      using Some by (auto simp: cancelSession_def sessionsChange.unchanged)
  next
    case False
    then have ok: "sess_owner s = u" "status s \<noteq> Completed" by simp_all
    from cancelSession_ok[OF Some ok, of c] obtain s' where
      r: "snd (cancelSession u i c d)
            = freeTable (sess_table s') (saveSession s' (restoreStock (items s) d))"
      and s': "s' = s\<lparr>status := Cancelled, endTime := Some c,
                      lastModifiedAt := c, paymentStatus := Pending,
                      paymentMethod := None, paymentMethodLabel := None,
                      totalPaidAmount := 0, remainingAmount := 0, payments := [],
                      paymentNotes := ''Session cancelled - payment reset''\<rparr>"
      using Some ok by (auto simp: cancelSession_def Let_def)
    have ev: "evolves c s s'"
      by (simp add: s' evolves_def isOpen_def list_all_iff)
    show ?thesis
      unfolding r
      by (rule sessionsChange.saved[where s'="s'" and s=s])
         (use Some sid ev in \<open>simp_all add: s' saveSession_def\<close>)
  qed
qed

lemma updateStock_endpoint_change:
  "sessionsChange c d (snd (updateStock_endpoint rt u pid q operation d))"
  by (rule sessionsChange.unchanged)
     (simp_all add: updateStock_endpoint_def saveProduct_def Let_def
        split: option.splits sum.splits)

lemma step_change: "sessionsChange (fst r) d (step rt r d)"
proof -
  obtain c rq where r: "r = (c, rq)" by (cases r)
  show ?thesis
    unfolding r
    by (cases rq)
       (simp_all add: startSession_change addItemToSession_change
          removeItemFromSession_change pauseSession_change resumeSession_change
          confirmPayment_change endSession_change cancelSession_change
          updateStock_endpoint_change)
qed

section \<open>Invariants of the sessions collection\<close>

lemma saveSession_ids: "map sess_id (sessions (saveSession s' d)) = map sess_id (sessions d)"
  by (simp add: saveSession_def comp_def if_distrib cong: if_cong)

lemma list_all_ids:
  "list_all (\<lambda>s. sess_id s < n) xs \<longleftrightarrow> list_all (\<lambda>i. i < n) (map sess_id xs)"
  by (simp add: list_all_iff)

lemma idsFresh_change:
  assumes "sessionsChange c d d'" "idsFresh d"
  shows "idsFresh d'"
  using assms
proof (cases rule: sessionsChange.cases)
  case unchanged
  then show ?thesis
    using assms(2) by (auto simp: idsFresh_def list_all_iff)
next
  case (saved s' s)
  have "map sess_id (sessions d') = map sess_id (sessions d)"
    using saved(3) by (simp add: saveSession_ids)
  then show ?thesis
    using assms(2) saved(4) unfolding idsFresh_def list_all_ids
    by (auto simp: list_all_iff)
next
  case (started s')
  then show ?thesis
    using assms(2) by (auto simp: idsFresh_def list_all_iff)
qed

lemma atMostOneOpen_iff: "atMostOneOpen d \<longleftrightarrow> (\<forall>t. length (openSessions t d) \<le> 1)"
proof
  assume a: "atMostOneOpen d"
  show "\<forall>t. length (openSessions t d) \<le> 1"
  proof
    fix t
    show "length (openSessions t d) \<le> 1"
    proof (cases "openSessions t d")
      case Nil
      then show ?thesis by simp
    next
      case (Cons x xs)
      then have "x \<in> set (openSessions t d)" by simp
      then have "x \<in> set (sessions d)" "sess_table x = t"
        by (simp_all add: openSessions_def)
      then show ?thesis
        using a by (auto simp: atMostOneOpen_def list_all_iff)
    qed
  qed
next
  assume "\<forall>t. length (openSessions t d) \<le> 1"
  then show "atMostOneOpen d"
    by (simp add: atMostOneOpen_def list_all_iff)
qed

lemma filter_map_le:
  assumes "\<And>x. x \<in> set xs \<Longrightarrow> P (g x) \<Longrightarrow> P x"
  shows "length (filter P (map g xs)) \<le> length (filter P xs)"
  using assms by (induction xs) auto

lemma find_distinct_unique:
  assumes "distinct (map f xs)" "find (\<lambda>x. f x = i) xs = Some y" "x \<in> set xs" "f x = i"
  shows "x = y"
proof -
  have "y \<in> set xs" "f y = i"
    using find_by_id[OF assms(2)] by simp_all
  then show ?thesis
    using assms(1,3,4) by (metis distinct_map inj_onD)
qed

lemma openSessions_saved:
  assumes "distinct (map sess_id (sessions d))" "findSession (sess_id s') d = Some s"
    "evolves c s s'"
  shows "length (openSessions t (saveSession s' d)) \<le> length (openSessions t d)"
proof -
  let ?P = "\<lambda>s. sess_table s = t \<and> (status s = Active \<or> status s = Paused)"
  let ?g = "\<lambda>x. if sess_id x = sess_id s' then s' else x"
  have keep: "?P x" if x: "x \<in> set (sessions d)" and p: "?P (?g x)" for x
  proof (cases "sess_id x = sess_id s'")
    case True
    then have "x = s"
      using find_distinct_unique[OF assms(1) assms(2)[unfolded findSession_def] x] by simp
    then show ?thesis
      using p True assms(3) by (auto simp: evolves_def isOpen_def split: if_splits)
  next
    case False
    then show ?thesis using p by simp
  qed
  have "length (filter ?P (map ?g (sessions d))) \<le> length (filter ?P (sessions d))"
    by (rule filter_map_le) (use keep in blast)
  then show ?thesis
    by (simp add: openSessions_def saveSession_def)
qed

lemma getActiveSession_None:
  "getActiveSession t d = None \<longleftrightarrow> openSessions t d = []"
  by (auto simp: getActiveSession_def openSessions_def find_None_iff filter_empty_conv)

lemma atMostOneOpen_change:
  assumes "sessionsChange c d d'" "idsFresh d" "atMostOneOpen d"
  shows "atMostOneOpen d'"
  unfolding atMostOneOpen_iff
proof
  fix t
  have le: "length (openSessions t d) \<le> 1"
    using assms(3) by (simp add: atMostOneOpen_iff)
  from assms(1) show "length (openSessions t d') \<le> 1"
  proof (cases rule: sessionsChange.cases)
    case unchanged
    then show ?thesis using le by (simp add: openSessions_def)
  next
    case (saved s' s)
    have "length (openSessions t d') = length (openSessions t (saveSession s' d))"
      using saved(3) by (simp add: openSessions_def)
    also have "\<dots> \<le> length (openSessions t d)"
      using assms(2) saved(1,2) by (intro openSessions_saved) (simp_all add: idsFresh_def)
    finally show ?thesis using le by simp
  next
    case (started s')
    show ?thesis
    proof (cases "sess_table s' = t")
      case True
      then have "openSessions t d = []"
        using started(4) by (simp add: getActiveSession_None)
      then show ?thesis
        using started(1) by (simp add: openSessions_def)
    next
      case False
      then show ?thesis
        using started(1) le by (simp add: openSessions_def)
    qed
  qed
qed

lemma run_sessions_invariant:
  assumes "idsFresh d" "atMostOneOpen d"
  shows "idsFresh (run rt rs d) \<and> atMostOneOpen (run rt rs d)"
  using assms
proof (induction rs arbitrary: d)
  case Nil
  then show ?case by simp
next
  case (Cons r rs)
  have "idsFresh (step rt r d)" "atMostOneOpen (step rt r d)"
    using step_change[of r d rt] Cons.prems
    by (auto intro: idsFresh_change atMostOneOpen_change)
  then show ?case
    using Cons.IH by simp
qed

text \<open>
  Claim C7. In a store whose session ids are distinct and below the next fresh id and where
  every table has at most one open (active or paused) session, any sequence of requests
  (start, add item, remove item, pause, resume, confirm payment, end, cancel, stock update),
  served one at a time, leaves at most one open session on every table. \<^verbatim>\<open>startSession\<close>
  answers with an error and changes nothing when the table is not active, is occupied, or
  already has an active or paused session.
\<close>

theorem at_most_one_open_session_per_table:
  "(idsFresh d \<longrightarrow> atMostOneOpen d \<longrightarrow> length (openSessions t (run rt rs d)) \<le> 1)
   \<and> (findTable tableId d = Some tb \<longrightarrow>
        tbl_status tb \<noteq> TableActive \<or> isOccupied tb \<or> getActiveSession tableId d \<noteq> None \<longrightarrow>
        (\<exists>e. startSession u tableId c d = (Inl e, d)))"
proof (intro conjI impI)
  assume "idsFresh d" "atMostOneOpen d"
  then have "atMostOneOpen (run rt rs d)"
    using run_sessions_invariant by blast
  then show "length (openSessions t (run rt rs d)) \<le> 1"
    by (simp add: atMostOneOpen_iff)
next
  assume "findTable tableId d = Some tb"
    "tbl_status tb \<noteq> TableActive \<or> isOccupied tb \<or> getActiveSession tableId d \<noteq> None"
  then show "\<exists>e. startSession u tableId c d = (Inl e, d)"
    by (auto simp: startSession_def)
qed

theorem at_most_one_open_session_per_table_witness:
  "idsFresh demo_db_open \<and> atMostOneOpen demo_db_open
   \<and> length (openSessions 3 demo_db_open) = 1
   \<and> length (openSessions 3
        (run demo_runtime [(1000, StartSession 7 3), (2000, Pause 7 10), (3000, StartSession 7 3)]
           demo_db_open)) \<le> 1
   \<and> isOccupied (demo_table\<lparr>isOccupied := True, currentBooking := Some 10\<rparr>)
   \<and> (\<exists>e. startSession 7 3 1000 demo_db_open = (Inl e, demo_db_open))"
proof -
  have o: "openSessions 3 demo_db_open = [demo_session]"
    by (simp add: openSessions_def demo_db_open_def demo_session_def newSession_def
          demo_table_def)
  have h1: "idsFresh demo_db_open"
    by (simp add: idsFresh_def demo_db_open_def demo_session_def newSession_def)
  have h2: "atMostOneOpen demo_db_open"
    unfolding atMostOneOpen_iff
  proof
    fix t
    have "openSessions t demo_db_open = (if t = 3 then [demo_session] else [])"
      by (simp add: openSessions_def demo_db_open_def demo_session_def newSession_def
            demo_table_def)
    then show "length (openSessions t demo_db_open) \<le> 1" by simp
  qed
  have h3: "findTable 3 demo_db_open
              = Some (demo_table\<lparr>isOccupied := True, currentBooking := Some 10\<rparr>)"
    by (simp add: findTable_def demo_db_open_def demo_table_def)
  have h4: "isOccupied (demo_table\<lparr>isOccupied := True, currentBooking := Some 10\<rparr>)"
    by simp
  from at_most_one_open_session_per_table[of demo_db_open 3 demo_runtime
      "[(1000, StartSession 7 3), (2000, Pause 7 10), (3000, StartSession 7 3)]" 3
      "demo_table\<lparr>isOccupied := True, currentBooking := Some 10\<rparr>" 7 1000]
  show ?thesis
    using h1 h2 h3 h4 o by simp
qed

section \<open>Stock never goes below zero\<close>

lemma itemQuantitiesOk_change:
  assumes "sessionsChange c d d'" "itemQuantitiesOk d"
  shows "itemQuantitiesOk d'"
  using assms(1)
proof (cases rule: sessionsChange.cases)
  case unchanged
  then show ?thesis using assms(2) by (simp add: itemQuantitiesOk_def)
next
  case (saved s' s)
  have "s \<in> set (sessions d)"
    using saved(1) by (simp add: findSession_Some)
  then have "list_all (\<lambda>it. 1 \<le> item_quantity it) (items s)"
    using assms(2) by (simp add: itemQuantitiesOk_def list_all_iff)
  then have "list_all (\<lambda>it. 1 \<le> item_quantity it) (items s')"
    using saved(2) by (auto simp: evolves_def list_all_iff)
  then show ?thesis
    using assms(2) saved(3) by (auto simp: itemQuantitiesOk_def saveSession_def list_all_iff)
next
  case (started s')
  then show ?thesis using assms(2) by (simp add: itemQuantitiesOk_def)
qed

lemma stockNonNegative_products:
  "products d' = products d \<Longrightarrow> stockNonNegative d' = stockNonNegative d"
  by (simp add: stockNonNegative_def)

lemma stockNonNegative_saveProduct:
  assumes "stockNonNegative d" "0 \<le> currentStock p'"
  shows "stockNonNegative (saveProduct p' d)"
  using assms by (auto simp: stockNonNegative_def saveProduct_def list_all_iff)

lemma stockNonNegative_find:
  assumes "stockNonNegative d" "findProduct i d = Some p"
  shows "0 \<le> currentStock p"
  using assms findProduct_Some[OF assms(2)] by (auto simp: stockNonNegative_def list_all_iff)

lemma updateStock_values:
  "currentStock (updateStock q ''subtract'' p) = max 0 (currentStock p - q)"
  "currentStock (updateStock q ''set'' p) = max 0 q"
  "currentStock (updateStock q ''add'' p) = currentStock p + q"
  by (simp_all add: updateStock_def)

lemma updateStock_nonneg:
  assumes "0 \<le> currentStock p" "0 \<le> q"
  shows "0 \<le> currentStock (updateStock q operation p)"
  using assms by (simp add: updateStock_def)

lemma stockNonNegative_restoreStock:
  assumes "stockNonNegative d" "list_all (\<lambda>it. 1 \<le> item_quantity it) its"
  shows "stockNonNegative (restoreStock its d)"
  using assms
proof (induction its arbitrary: d)
  case Nil
  then show ?case by simp
next
  case (Cons item rest)
  have q: "(0::rat) \<le> of_int (item_quantity item)"
    using Cons.prems(2) by simp
  have "stockNonNegative
          (case findProduct (item_product item) d of
             None \<Rightarrow> d
           | Some p \<Rightarrow> saveProduct (updateStock (of_int (item_quantity item)) ''add'' p) d)"
  proof (cases "findProduct (item_product item) d")
    case None
    then show ?thesis using Cons.prems(1) by simp
  next
    case (Some p)
    have "0 \<le> currentStock p"
      by (rule stockNonNegative_find[OF Cons.prems(1) Some])
    then show ?thesis
      using Some Cons.prems(1) q
      by (simp add: stockNonNegative_saveProduct updateStock_nonneg)
  qed
  then show ?case
    using Cons.IH Cons.prems(2) by simp
qed

lemma products_unchanged:
  "products (snd (startSession u tableId c d)) = products d"
  "products (snd (pauseSession u i c d)) = products d"
  "products (snd (resumeSession u i c d)) = products d"
  "products (snd (confirmPayment u i st m t n c d)) = products d"
  "products (snd (endSession u i n c d)) = products d"
  by (simp_all add: startSession_def pauseSession_def resumeSession_def confirmPayment_def
        endSession_def Let_def split: option.splits sum.splits)

lemma addItemToSession_stock:
  assumes "stockNonNegative d"
  shows "stockNonNegative (snd (addItemToSession u i pid q c d))"
proof -
  have "snd (addItemToSession u i pid q c d) = d
        \<or> (\<exists>p s'. findProduct pid d = Some p
              \<and> snd (addItemToSession u i pid q c d) =
                  saveProduct (updateStock (of_int q) ''subtract'' p)
                    (saveSession s' (d\<lparr>nextId := Suc (nextId d)\<rparr>)))"
    by (auto simp: addItemToSession_def split: option.splits sum.splits)
  then show ?thesis
  proof
    assume "snd (addItemToSession u i pid q c d) = d"
    then show ?thesis using assms by simp
  next
    assume "\<exists>p s'. findProduct pid d = Some p
              \<and> snd (addItemToSession u i pid q c d) =
                  saveProduct (updateStock (of_int q) ''subtract'' p)
                    (saveSession s' (d\<lparr>nextId := Suc (nextId d)\<rparr>))"
    then obtain p s' where r: "snd (addItemToSession u i pid q c d) =
                  saveProduct (updateStock (of_int q) ''subtract'' p)
                    (saveSession s' (d\<lparr>nextId := Suc (nextId d)\<rparr>))"
      by blast
    have "stockNonNegative (saveSession s' (d\<lparr>nextId := Suc (nextId d)\<rparr>))"
      using assms by (simp add: stockNonNegative_def saveSession_def)
    then show ?thesis
      unfolding r
      by (rule stockNonNegative_saveProduct) (simp add: updateStock_values)
  qed
qed

lemma removeItemFromSession_stock:
  assumes "stockNonNegative d" "itemQuantitiesOk d"
  shows "stockNonNegative (snd (removeItemFromSession u i k c d))"
proof (cases "findSession i d")
  case None
  then show ?thesis using assms(1) by (simp add: removeItemFromSession_def)
next
  case (Some s)
  then have "s \<in> set (sessions d)" by (simp add: findSession_Some)
  then have qs: "list_all (\<lambda>it. 1 \<le> item_quantity it) (items s)"
    using assms(2) by (simp add: itemQuantitiesOk_def list_all_iff)
  show ?thesis
  proof (cases "find (\<lambda>item. item_id item = k) (items s)")
    case None
    then show ?thesis using Some assms(1) by (simp add: removeItemFromSession_def)
  next
    case it: (Some item)
    then have "item \<in> set (items s)"
      using find_by_id[of item_id k "items s" item] by simp
    then have q: "(0::rat) \<le> of_int (item_quantity item)"
      using qs by (auto simp: list_all_iff)
    define d1 where "d1 = (case findProduct (item_product item) d of
                                 None \<Rightarrow> d
                               | Some p \<Rightarrow>
                                   saveProduct
                                     (updateStock (of_int (item_quantity item)) ''add'' p) d)"
    have d1: "stockNonNegative d1"
    proof (cases "findProduct (item_product item) d")
      case None
      then show ?thesis using assms(1) by (simp add: d1_def)
    next
      case p: (Some p)
      have "0 \<le> currentStock p"
        by (rule stockNonNegative_find[OF assms(1) p])
      then show ?thesis
        using p assms(1) q
        by (simp add: d1_def stockNonNegative_saveProduct updateStock_nonneg)
    qed
    have "products (snd (removeItemFromSession u i k c d)) = products d
          \<or> products (snd (removeItemFromSession u i k c d)) = products d1"
      using Some it
      by (auto simp: removeItemFromSession_def d1_def Let_def split: sum.splits)
    then show ?thesis
      using assms(1) d1 by (auto simp: stockNonNegative_def)
  qed
qed

lemma cancelSession_stock:
  assumes "stockNonNegative d" "itemQuantitiesOk d"
  shows "stockNonNegative (snd (cancelSession u i c d))"
proof (cases "findSession i d")
  case None
  then show ?thesis using assms(1) by (simp add: cancelSession_def)
next
  case (Some s)
  then have "s \<in> set (sessions d)" by (simp add: findSession_Some)
  then have qs: "list_all (\<lambda>it. 1 \<le> item_quantity it) (items s)"
    using assms(2) by (simp add: itemQuantitiesOk_def list_all_iff)
  have r: "stockNonNegative (restoreStock (items s) d)"
    by (rule stockNonNegative_restoreStock[OF assms(1) qs])
  have "products (snd (cancelSession u i c d)) = products d
        \<or> products (snd (cancelSession u i c d)) = products (restoreStock (items s) d)"
    using Some by (simp add: cancelSession_def Let_def)
  then show ?thesis
    using assms(1) r by (auto simp: stockNonNegative_def)
qed

lemma updateStock_json_nonneg:
  assumes "updateStock_json rt q operation p = Inr p'"
  shows "0 \<le> currentStock p'"
proof -
  have "0 \<le> currentStock p'"
    if "(case ns of
           None \<Rightarrow> Inl ValidationFailed
         | Some v \<Rightarrow> if v < 0 then Inl ValidationFailed else Inr (p\<lparr>currentStock := v\<rparr>))
        = Inr p'" for ns
    using that by (auto split: option.splits if_splits)
  then show ?thesis
    using assms unfolding updateStock_json_def Let_def by blast
qed

lemma updateStock_json_number:
  assumes "0 \<le> currentStock p" "0 \<le> q"
  shows "updateStock_json rt (JNum q) operation p = Inr (updateStock q operation p)"
  using assms by (simp add: updateStock_json_def toNumber_def updateStock_def)

lemma updateStock_endpoint_number:
  assumes "findProduct pid d = Some p" "prod_owner p = u" "0 \<le> currentStock p" "0 < q"
  shows "updateStock_endpoint rt u pid (JNum q) operation d
           = (Inr (updateStock q operation p), saveProduct (updateStock q operation p) d)"
  using assms
  by (simp add: updateStock_endpoint_def truthy_def toNumber_def updateStock_json_number)

lemma updateStock_endpoint_stock:
  assumes "stockNonNegative d"
  shows "stockNonNegative (snd (updateStock_endpoint rt u pid q operation d))"
proof (cases "findProduct pid d")
  case None
  then show ?thesis using assms by (simp add: updateStock_endpoint_def)
next
  case (Some p)
  show ?thesis
  proof (cases "updateStock_json rt q operation p")
    case (Inl e)
    then show ?thesis using Some assms by (simp add: updateStock_endpoint_def)
  next
    case (Inr p')
    have "0 \<le> currentStock p'"
      by (rule updateStock_json_nonneg[OF Inr])
    then show ?thesis
      using Some Inr assms
      by (simp add: updateStock_endpoint_def stockNonNegative_saveProduct)
  qed
qed

lemma step_stock:
  assumes "stockNonNegative d" "itemQuantitiesOk d"
  shows "stockNonNegative (step rt r d)"
proof -
  obtain c rq where r: "r = (c, rq)" by (cases r)
  show ?thesis
    unfolding r using assms
    by (cases rq)
       (simp_all add: addItemToSession_stock removeItemFromSession_stock cancelSession_stock
          updateStock_endpoint_stock stockNonNegative_products[OF products_unchanged(1)]
          stockNonNegative_products[OF products_unchanged(2)]
          stockNonNegative_products[OF products_unchanged(3)]
          stockNonNegative_products[OF products_unchanged(4)]
          stockNonNegative_products[OF products_unchanged(5)])
qed

text \<open>
  No product's stock becomes negative, whatever JSON values the stock endpoint receives and
  whatever the runtime's conversions are: the Product schema's minimum refuses a negative
  stock at every save of the endpoint, and the session handlers add item quantities of at
  least 1 or subtract with a floor at 0.
\<close>

lemma run_stock:
  assumes "stockNonNegative d" "itemQuantitiesOk d"
  shows "stockNonNegative (run rt rs d) \<and> itemQuantitiesOk (run rt rs d)"
  using assms
proof (induction rs arbitrary: d)
  case Nil
  then show ?case by simp
next
  case (Cons r rs)
  have "stockNonNegative (step rt r d)"
    by (rule step_stock[OF Cons.prems])
  moreover have "itemQuantitiesOk (step rt r d)"
    by (rule itemQuantitiesOk_change[OF step_change Cons.prems(2)])
  ultimately show ?case
    using Cons.IH by simp
qed

lemma stock_non_negative_after_every_step:
  assumes "stockNonNegative d" "itemQuantitiesOk d"
  shows "stockNonNegative (run rt (take k rs) d)"
  using run_stock[OF assms, of rt "take k rs"] by simp

text \<open>
  On a number the endpoint does what the claim says of the three operations: for a positive
  quantity \<open>q\<close> on a product with non-negative stock it stores \<open>max 0 (stock - q)\<close> for
  \<open>subtract\<close>, \<open>max 0 q\<close> for \<open>set\<close> and \<open>stock + q\<close> for \<open>add\<close>.
\<close>

lemma updateStock_endpoint_number_values:
  assumes "findProduct pid d = Some p" "prod_owner p = u" "0 \<le> currentStock p" "0 < q"
  shows "fst (updateStock_endpoint rt u pid (JNum q) ''subtract'' d)
           = Inr (p\<lparr>currentStock := max 0 (currentStock p - q)\<rparr>)"
    and "fst (updateStock_endpoint rt u pid (JNum q) ''set'' d)
           = Inr (p\<lparr>currentStock := max 0 q\<rparr>)"
    and "fst (updateStock_endpoint rt u pid (JNum q) ''add'' d)
           = Inr (p\<lparr>currentStock := currentStock p + q\<rparr>)"
  by (simp_all add: updateStock_endpoint_number[OF assms] updateStock_def)

lemma demo_runtime_values:
  "stringOfNumber demo_runtime 10 = ''10''"
  "numberOfString demo_runtime ''105'' = Some 105"
  "numberOfString demo_runtime ''5'' = Some 5"
  by code_simp+

text \<open>
  Claim C6, evaluated. The stock route mounts no validation of the request body, although
  the validation module defines one for it (\<^verbatim>\<open>updateStockSchema\<close>: the quantity a whole
  number of at least 1), so the endpoint accepts the quantity \<^verbatim>\<open>"5"\<close>: it is truthy and
  \<^verbatim>\<open>"5" <= 0\<close> is false. With the operation \<open>add\<close> on a product whose stock is 10,
  \<^verbatim>\<open>this.currentStock += quantity\<close> is then the string \<^verbatim>\<open>"105"\<close> and the stored stock is
  105, where the number 5 gives 15.
\<close>

theorem string_quantity_is_appended_to_stock:
  "findProduct 2 demo_db = Some demo_product
   \<and> currentStock demo_product = 10
   \<and> updateStock_endpoint demo_runtime 7 2 (JStr ''5'') ''add'' demo_db
       = (Inr (demo_product\<lparr>currentStock := 105\<rparr>),
          demo_db\<lparr>products := [demo_product\<lparr>currentStock := 105\<rparr>]\<rparr>)
   \<and> updateStock_endpoint demo_runtime 7 2 (JNum 5) ''add'' demo_db
       = (Inr (demo_product\<lparr>currentStock := 15\<rparr>),
          demo_db\<lparr>products := [demo_product\<lparr>currentStock := 15\<rparr>]\<rparr>)"
proof -
  have f: "findProduct 2 demo_db = Some demo_product"
    by (simp add: findProduct_def demo_db_def demo_product_def)
  have p: "prod_owner demo_product = 7" "currentStock demo_product = 10"
    "prod_id demo_product = 2"
    by (simp_all add: demo_product_def)
  have t: "truthy (JStr ''5'')" "toNumber demo_runtime (JStr ''5'') = Some 5"
    by (simp_all add: truthy_def toNumber_def demo_runtime_values)
  have s: "stringOfNumber demo_runtime 10 @ ''5'' = ''105''"
    by (simp add: demo_runtime_values)
  have n: "numberOfString demo_runtime ''105'' = Some 105"
    by (simp add: demo_runtime_values)
  have j: "updateStock_json demo_runtime (JStr ''5'') ''add'' demo_product
             = Inr (demo_product\<lparr>currentStock := 105\<rparr>)"
    by (simp add: updateStock_json_def p s n)
  have sv: "saveProduct (demo_product\<lparr>currentStock := v\<rparr>) demo_db
              = demo_db\<lparr>products := [demo_product\<lparr>currentStock := v\<rparr>]\<rparr>" for v
    by (simp add: saveProduct_def demo_db_def)
  have a: "updateStock_endpoint demo_runtime 7 2 (JStr ''5'') ''add'' demo_db
       = (Inr (demo_product\<lparr>currentStock := 105\<rparr>),
          demo_db\<lparr>products := [demo_product\<lparr>currentStock := 105\<rparr>]\<rparr>)"
    by (simp add: updateStock_endpoint_def f p t j sv)
  have b: "updateStock_endpoint demo_runtime 7 2 (JNum 5) ''add'' demo_db
       = (Inr (demo_product\<lparr>currentStock := 15\<rparr>),
          demo_db\<lparr>products := [demo_product\<lparr>currentStock := 15\<rparr>]\<rparr>)"
    using updateStock_endpoint_number[OF f p(1), of 5 demo_runtime "''add''"]
    by (simp add: p updateStock_def sv)
  show ?thesis
    using f p(2) a b by simp
qed

section \<open>Elapsed time\<close>

lemma endTimeOk_change:
  assumes "sessionsChange c d d'" "c \<noteq> 0" "list_all endTimeOk (sessions d)"
  shows "list_all endTimeOk (sessions d')"
  using assms(1)
proof (cases rule: sessionsChange.cases)
  case unchanged
  then show ?thesis using assms(3) by simp
next
  case (saved s' s)
  have "s \<in> set (sessions d)"
    using saved(1) by (simp add: findSession_Some)
  then have "endTimeOk s"
    using assms(3) by (simp add: list_all_iff)
  then have "endTimeOk s'"
    using saved(2) assms(2)
    by (auto simp: evolves_def endTimeOk_def isOpen_def split: if_splits)
  then show ?thesis
    using assms(3) saved(3) by (auto simp: saveSession_def list_all_iff)
next
  case (started s')
  then show ?thesis using assms(3) by (simp add: endTimeOk_def)
qed

lemma run_endTimeOk:
  assumes "list_all endTimeOk (sessions d)" "list_all (\<lambda>r. fst r \<noteq> 0) rs"
  shows "list_all endTimeOk (sessions (run rt rs d))"
  using assms
proof (induction rs arbitrary: d)
  case Nil
  then show ?case by simp
next
  case (Cons r rs)
  have "list_all endTimeOk (sessions (step rt r d))"
    using endTimeOk_change[OF step_change[of r d rt]] Cons.prems by simp
  then show ?case
    using Cons.IH Cons.prems(2) by simp
qed

lemma getDurationInMinutes_formula:
  assumes "endTimeOk s"
  shows "getDurationInMinutes clock s =
           ((case endTime s of Some e \<Rightarrow> e | None \<Rightarrow> clock) - startTime s
              - totalPausedTime s
              - (if status s = Paused
                 then (case pausedAt s of Some p \<Rightarrow> clock - p | None \<Rightarrow> 0) else 0))
           div (1000 * 60)"
  using assms
  by (auto simp: getDurationInMinutes_def endTimeOk_def Let_def split: option.splits if_splits)

lemma find_append_None:
  "find P xs = None \<Longrightarrow> find P (xs @ ys) = find P ys"
  by (induction xs) (auto split: if_splits)

lemma startSession_ok:
  assumes "startSession u tableId c d = (Inr s0, d1)" "findSession (nextId d) d = None"
  shows "sess_id s0 = nextId d \<and> findSession (sess_id s0) d1 = Some s0
         \<and> sess_owner s0 = u \<and> status s0 = Active \<and> startTime s0 = c
         \<and> totalPausedTime s0 = 0 \<and> pausedAt s0 = None \<and> endTime s0 = None
         \<and> payments s0 = []"
proof -
  obtain t where t: "findTable tableId d = Some t"
    and s0: "s0 = newSession c (nextId d) u t"
    and d1: "d1 = saveTable (t\<lparr>isOccupied := True, currentBooking := Some (sess_id s0)\<rparr>)
                    (d\<lparr>sessions := sessions d @ [s0], nextId := Suc (nextId d)\<rparr>)"
    using assms(1)
    by (auto simp: startSession_def Let_def split: option.splits if_splits)
  have id0: "sess_id s0 = nextId d" by (simp add: s0 newSession_def)
  have "findSession (nextId d) d1 = Some s0"
    using assms(2) id0 by (simp add: d1 findSession_def find_append_None)
  then show ?thesis
    using id0 by (simp add: s0 newSession_def)
qed

lemma pauseSession_ok:
  assumes "findSession i d = Some s" "sess_owner s = u" "status s = Active"
  shows "pauseSession u i c d =
           (Inr (s\<lparr>status := Paused, pausedAt := Some c, lastModifiedAt := c\<rparr>),
            saveSession (s\<lparr>status := Paused, pausedAt := Some c, lastModifiedAt := c\<rparr>) d)"
  using assms by (simp add: pauseSession_def Let_def)

lemma resumeSession_ok:
  assumes "findSession i d = Some s" "sess_owner s = u" "status s = Paused"
    "pausedAt s = Some p"
  shows "resumeSession u i c d =
           (Inr (s\<lparr>status := Active, totalPausedTime := totalPausedTime s + (c - p),
                    pausedAt := None, lastModifiedAt := c\<rparr>),
            saveSession (s\<lparr>status := Active, totalPausedTime := totalPausedTime s + (c - p),
                           pausedAt := None, lastModifiedAt := c\<rparr>) d)"
  using assms by (simp add: resumeSession_def Let_def)

lemma confirmPayment_credit_times:
  assumes "confirmPayment u i ''credit'' m t n c d = (Inr s2, d')" "findSession i d = Some s"
  shows "startTime s2 = startTime s \<and> totalPausedTime s2 = totalPausedTime s
         \<and> pausedAt s2 = pausedAt s \<and> endTime s2 = endTime s"
proof -
  obtain s1 where s1: "updateTotalCost c s = Inr s1"
    and s2: "s2 = markAsCredit c (if n = [] then ''Payment credited - to be collected later''
                                  else n) s1"
    using assms
    by (auto simp: confirmPayment_def Let_def split: if_splits sum.splits)
  have "startTime s1 = startTime s \<and> totalPausedTime s1 = totalPausedTime s
         \<and> pausedAt s1 = pausedAt s \<and> endTime s1 = endTime s"
    using s1
    by (auto simp: updateTotalCost_def updatePaymentAmounts_def calculateItemsTotals_def
          Let_def split: option.splits if_splits)
  then show ?thesis
    by (simp add: s2 markAsCredit_def)
qed

lemma pause_resume_scenario:
  assumes start: "startSession u tableId T0 d0 = (Inr s0, d1)"
    and fresh: "findSession (nextId d0) d0 = None"
    and rates: "ratesDefined s0"
    and epoch: "T0 + 1800000 \<noteq> 0"
  shows "\<exists>sE. findSession (sess_id s0)
                 (run rt [(T0 + 600000, Pause u (sess_id s0)),
                       (T0 + 1200000, Resume u (sess_id s0)),
                       (T0 + 1800000, ConfirmPayment u (sess_id s0) ''credit'' [] [] []),
                       (T0 + 1800000, EndSession u (sess_id s0) [])] d1) = Some sE
          \<and> status sE = Completed \<and> endTime sE = Some (T0 + 1800000)
          \<and> totalPausedTime sE = 600000 \<and> getDurationInMinutes clock sE = 20"
proof -
  let ?i = "sess_id s0"
  from startSession_ok[OF start fresh] have
    s0: "findSession ?i d1 = Some s0" "sess_owner s0 = u" "status s0 = Active"
      "startTime s0 = T0" "totalPausedTime s0 = 0" "pausedAt s0 = None" "endTime s0 = None"
    by blast+
  define sP where "sP = s0\<lparr>status := Paused, pausedAt := Some (T0 + 600000),
                            lastModifiedAt := T0 + 600000\<rparr>"
  define d2 where "d2 = saveSession sP d1"
  have p: "pauseSession u ?i (T0 + 600000) d1 = (Inr sP, d2)"
    unfolding sP_def d2_def by (rule pauseSession_ok[OF s0(1,2,3)])
  have fP: "findSession ?i d2 = Some sP"
    using s0(1) by (simp add: d2_def findSession_saveSession sP_def)
  have sPf: "sess_owner sP = u" "status sP = Paused" "pausedAt sP = Some (T0 + 600000)"
    using s0(2) by (simp_all add: sP_def)
  define sR where "sR = sP\<lparr>status := Active,
                            totalPausedTime := totalPausedTime sP
                                               + (T0 + 1200000 - (T0 + 600000)),
                            pausedAt := None, lastModifiedAt := T0 + 1200000\<rparr>"
  define d3 where "d3 = saveSession sR d2"
  have r: "resumeSession u ?i (T0 + 1200000) d2 = (Inr sR, d3)"
    unfolding sR_def d3_def by (rule resumeSession_ok[OF fP sPf])
  have fR: "findSession ?i d3 = Some sR"
    using fP by (simp add: d3_def findSession_saveSession sR_def sP_def)
  have sRf: "sess_owner sR = u" "status sR = Active \<or> status sR = Paused"
    "startTime sR = T0" "totalPausedTime sR = 600000" "pausedAt sR = None"
    "endTime sR = None"
    using s0 by (simp_all add: sR_def sP_def)
  have sRr: "ratesDefined sR"
    using rates by (subst ratesDefined_cong[of _ s0]) (simp_all add: sR_def sP_def)
  from confirmPayment_credit[OF fR sRf(1,2) sRr, of "[]" "[]" "[]" "T0 + 1800000"]
  obtain sC where
    c: "confirmPayment u ?i ''credit'' [] [] [] (T0 + 1800000) d3 = (Inr sC, saveSession sC d3)"
    and sCf: "paymentStatus sC = Credit" "status sC = status sR" "sess_id sC = ?i"
      "sess_owner sC = u" "ratesDefined sC"
    by blast
  define d4 where "d4 = saveSession sC d3"
  from confirmPayment_credit_times[OF c fR] sRf have
    sCt: "startTime sC = T0" "totalPausedTime sC = 600000" "pausedAt sC = None"
    by simp_all
  have fC: "findSession ?i d4 = Some sC"
    using fR sCf(3) by (simp add: d4_def findSession_saveSession)
  have openC: "status sC = Active \<or> status sC = Paused"
    using sCf(2) sRf(2) by simp
  have npC: "paymentStatus sC \<noteq> Pending"
    using sCf(1) by simp
  from endSession_ok[OF fC sCf(4) openC npC sCf(5), of "[]" "T0 + 1800000"]
  obtain sE where
    e: "endSession u ?i [] (T0 + 1800000) d4
          = (Inr sE, freeTable (sess_table sC) (saveSession sE d4))"
    and fE: "findSession ?i (freeTable (sess_table sC) (saveSession sE d4)) = Some sE"
    and sEf: "status sE = Completed" "endTime sE = Some (T0 + 1800000)" "pausedAt sE = None"
      "startTime sE = startTime sC"
      "totalPausedTime sE =
         totalPausedTime sC + (case pausedAt sC of None \<Rightarrow> 0 | Some p \<Rightarrow> T0 + 1800000 - p)"
    by blast
  have run: "run rt [(T0 + 600000, Pause u ?i), (T0 + 1200000, Resume u ?i),
                  (T0 + 1800000, ConfirmPayment u ?i ''credit'' [] [] []),
                  (T0 + 1800000, EndSession u ?i [])] d1
             = freeTable (sess_table sC) (saveSession sE d4)"
    using p r c e by (simp add: d4_def)
  have tp: "totalPausedTime sE = 600000"
    using sEf(5) sCt by simp
  have "getDurationInMinutes clock sE = (T0 + 1800000 - T0 - 600000) div (1000 * 60)"
    using sEf sCt tp epoch by (simp add: getDurationInMinutes_def)
  then have "getDurationInMinutes clock sE = 20" by simp
  then show ?thesis
    using run fE sEf tp by simp
qed

text \<open>
  Claim C2. For every session that stores an end time only once it is closed, and never the
  epoch (every session the handlers store at a non-zero clock is such), the reported duration
  is the floor of (end time if set, else now, minus start time, minus the cumulative paused
  time, minus the current pause if the session is paused) over one minute. Resuming a
  paused session adds exactly the clock minus \<open>pausedAt\<close> to the cumulative paused time. A
  session started at \<open>T0\<close>, paused at \<open>T0\<close> + 10 min, resumed at \<open>T0\<close> + 20 min and (after
  confirming payment) ended at \<open>T0\<close> + 30 min has an elapsed time of 20 minutes, whenever it
  is read afterwards.
\<close>

theorem duration_excludes_paused_time:
  "(endTimeOk s \<longrightarrow>
      getDurationInMinutes clock s =
        ((case endTime s of Some e \<Rightarrow> e | None \<Rightarrow> clock) - startTime s
           - totalPausedTime s
           - (if status s = Paused
              then (case pausedAt s of Some p \<Rightarrow> clock - p | None \<Rightarrow> 0) else 0))
        div (1000 * 60))
   \<and> (list_all endTimeOk (sessions d) \<longrightarrow> list_all (\<lambda>r. fst r \<noteq> 0) rs \<longrightarrow>
        list_all endTimeOk (sessions (run rt rs d)))
   \<and> (findSession i d = Some s \<longrightarrow> sess_owner s = u \<longrightarrow> status s = Paused \<longrightarrow>
        pausedAt s = Some p \<longrightarrow>
        (\<exists>s'. resumeSession u i clock d = (Inr s', saveSession s' d)
              \<and> status s' = Active \<and> pausedAt s' = None
              \<and> totalPausedTime s' = totalPausedTime s + (clock - p)))
   \<and> (startSession u tableId T0 d0 = (Inr s0, d1) \<longrightarrow> findSession (nextId d0) d0 = None \<longrightarrow>
        ratesDefined s0 \<longrightarrow> T0 + 1800000 \<noteq> 0 \<longrightarrow>
        (\<exists>sE. findSession (sess_id s0)
                 (run rt [(T0 + 600000, Pause u (sess_id s0)),
                       (T0 + 1200000, Resume u (sess_id s0)),
                       (T0 + 1800000, ConfirmPayment u (sess_id s0) ''credit'' [] [] []),
                       (T0 + 1800000, EndSession u (sess_id s0) [])] d1) = Some sE
          \<and> status sE = Completed \<and> endTime sE = Some (T0 + 1800000)
          \<and> totalPausedTime sE = 600000 \<and> getDurationInMinutes clock sE = 20))"
proof (intro conjI impI)
  assume "endTimeOk s"
  then show "getDurationInMinutes clock s =
        ((case endTime s of Some e \<Rightarrow> e | None \<Rightarrow> clock) - startTime s
           - totalPausedTime s
           - (if status s = Paused
              then (case pausedAt s of Some p \<Rightarrow> clock - p | None \<Rightarrow> 0) else 0))
        div (1000 * 60)"
    by (rule getDurationInMinutes_formula)
next
  assume "list_all endTimeOk (sessions d)" "list_all (\<lambda>r. fst r \<noteq> 0) rs"
  then show "list_all endTimeOk (sessions (run rt rs d))"
    by (rule run_endTimeOk)
next
  assume a: "findSession i d = Some s" "sess_owner s = u" "status s = Paused"
    "pausedAt s = Some p"
  show "\<exists>s'. resumeSession u i clock d = (Inr s', saveSession s' d)
              \<and> status s' = Active \<and> pausedAt s' = None
              \<and> totalPausedTime s' = totalPausedTime s + (clock - p)"
    unfolding resumeSession_ok[OF a] by simp
next
  assume "startSession u tableId T0 d0 = (Inr s0, d1)" "findSession (nextId d0) d0 = None"
    "ratesDefined s0" "T0 + 1800000 \<noteq> 0"
  then show "\<exists>sE. findSession (sess_id s0)
                 (run rt [(T0 + 600000, Pause u (sess_id s0)),
                       (T0 + 1200000, Resume u (sess_id s0)),
                       (T0 + 1800000, ConfirmPayment u (sess_id s0) ''credit'' [] [] []),
                       (T0 + 1800000, EndSession u (sess_id s0) [])] d1) = Some sE
          \<and> status sE = Completed \<and> endTime sE = Some (T0 + 1800000)
          \<and> totalPausedTime sE = 600000 \<and> getDurationInMinutes clock sE = 20"
    by (rule pause_resume_scenario)
qed

theorem duration_excludes_paused_time_witness:
  "getDurationInMinutes 900000
     (demo_session\<lparr>status := Paused, pausedAt := Some 600000\<rparr>) = 10
   \<and> list_all endTimeOk (sessions (run demo_runtime [(1000, Pause 7 10)] demo_db_open))
   \<and> (\<exists>s'. resumeSession 7 10 1200000
              (saveSession (demo_session\<lparr>status := Paused, pausedAt := Some 600000\<rparr>)
                 demo_db_open)
            = (Inr s', saveSession s'
                 (saveSession (demo_session\<lparr>status := Paused, pausedAt := Some 600000\<rparr>)
                    demo_db_open))
          \<and> status s' = Active \<and> totalPausedTime s' = 600000)
   \<and> (\<exists>sE. findSession 10
              (run demo_runtime [(1000 + 600000, Pause 7 10), (1000 + 1200000, Resume 7 10),
                    (1000 + 1800000, ConfirmPayment 7 10 ''credit'' [] [] []),
                    (1000 + 1800000, EndSession 7 10 [])]
                 (snd (startSession 7 3 1000 demo_db))) = Some sE
          \<and> status sE = Completed \<and> totalPausedTime sE = 600000
          \<and> getDurationInMinutes 86400000 sE = 20)"
proof -
  let ?sP = "demo_session\<lparr>status := Paused, pausedAt := Some 600000\<rparr>"
  let ?dP = "saveSession ?sP demo_db_open"
  let ?s0 = "newSession 1000 10 7 demo_table"
  have a1: "endTimeOk ?sP"
    by (simp add: endTimeOk_def demo_session_def newSession_def)
  have a2: "list_all endTimeOk (sessions demo_db_open)"
    by (simp add: endTimeOk_def demo_db_open_def demo_session_def newSession_def)
  have a3: "list_all (\<lambda>r. fst r \<noteq> 0) [(1000::int, Pause 7 10)]"
    by simp
  have f0: "findSession 10 demo_db_open = Some demo_session"
    by (simp add: findSession_def demo_db_open_def demo_session_def newSession_def)
  have b1: "findSession 10 ?dP = Some ?sP"
    by (simp add: findSession_saveSession f0) (simp add: demo_session_def newSession_def)
  have b2: "sess_owner ?sP = 7" "status ?sP = Paused" "pausedAt ?sP = Some 600000"
    by (simp_all add: demo_session_def newSession_def)
  have c1: "startSession 7 3 1000 demo_db = (Inr ?s0, snd (startSession 7 3 1000 demo_db))"
    by (simp add: startSession_def findTable_def getActiveSession_def demo_db_def
          demo_table_def Let_def newSession_def)
  have c2: "findSession (nextId demo_db) demo_db = None"
    by (simp add: findSession_def demo_db_def)
  have c3: "ratesDefined ?s0"
    by (simp add: ratesDefined_def newSession_def demo_table_def)
  have c4: "(1000::int) + 1800000 \<noteq> 0" by simp
  have c5: "sess_id ?s0 = 10" by (simp add: newSession_def)
  have v: "((case endTime ?sP of Some e \<Rightarrow> e | None \<Rightarrow> 900000) - startTime ?sP
           - totalPausedTime ?sP
           - (if status ?sP = Paused
              then (case pausedAt ?sP of Some p \<Rightarrow> 900000 - p | None \<Rightarrow> 0) else 0))
        div (1000 * 60) = (10::int)"
    by (simp add: demo_session_def newSession_def)
  have t: "totalPausedTime ?sP = 0"
    by (simp add: demo_session_def newSession_def)
  from duration_excludes_paused_time[where s="?sP" and clock=900000 and d="demo_db_open"
      and rs="[(1000, Pause 7 10)]" and i=10 and u=7 and p=600000 and tableId=3
      and ?T0.0=1000 and ?d0.0=demo_db and ?s0.0="?s0"
      and ?d1.0="snd (startSession 7 3 1000 demo_db)"]
  have r1: "getDurationInMinutes 900000 ?sP = 10"
    and r2: "list_all endTimeOk (sessions (run demo_runtime [(1000, Pause 7 10)] demo_db_open))"
    using a1 a2 a3 v by simp_all
  from duration_excludes_paused_time[where s="?sP" and clock=1200000 and d="?dP"
      and rs="[]" and i=10 and u=7 and p=600000 and tableId=3
      and ?T0.0=1000 and ?d0.0=demo_db and ?s0.0="?s0"
      and ?d1.0="snd (startSession 7 3 1000 demo_db)"]
  have r3: "\<exists>s'. resumeSession 7 10 1200000 ?dP = (Inr s', saveSession s' ?dP)
              \<and> status s' = Active \<and> totalPausedTime s' = 600000"
    using b1 b2 t by auto
  from duration_excludes_paused_time[where s="?sP" and clock=86400000 and d="?dP"
      and rs="[]" and i=10 and u=7 and p=600000 and tableId=3
      and ?T0.0=1000 and ?d0.0=demo_db and ?s0.0="?s0"
      and ?d1.0="snd (startSession 7 3 1000 demo_db)"]
  have r4: "\<exists>sE. findSession 10
              (run demo_runtime [(1000 + 600000, Pause 7 10), (1000 + 1200000, Resume 7 10),
                    (1000 + 1800000, ConfirmPayment 7 10 ''credit'' [] [] []),
                    (1000 + 1800000, EndSession 7 10 [])]
                 (snd (startSession 7 3 1000 demo_db))) = Some sE
          \<and> status sE = Completed \<and> totalPausedTime sE = 600000
          \<and> getDurationInMinutes 86400000 sE = 20"
    using c1 c2 c3 c4 c5 by auto
  show ?thesis
    using r1 r2 r3 r4 by blast
qed

end
